theory Spec2Isabelle
  imports Complex_Main
begin

section \<open>Errors and warnings of the script\<close>

text \<open>
  The script \<^verbatim>\<open>b_CNN_model_ResNet_wrs_lr.py\<close> is a straight-line program with two
  functions, \<^verbatim>\<open>balanced_sampler\<close> and \<^verbatim>\<open>train_model\<close>. Every exception it can raise in
  the parts modelled here is a value of \<open>error\<close>; a function that can raise returns
  \<open>error + 'a\<close> with \<open>Inl\<close> for the exception. A warning issued through Python's
  \<^verbatim>\<open>warnings.warn\<close> does not stop the program; it is returned next to the result.
\<close>

datatype error =
  FileNotFoundError | ValueError | IndexError | ZeroDivisionError | AttributeError

datatype warning = EmptySplit nat
  \<comment> \<open>"Length of split at index i is 0. This might result in an empty dataset."\<close>

section \<open>The split into train, validation and test sets (lines 43 to 46)\<close>

text \<open>
  \<^verbatim>\<open>
  train_size = int(0.6 * len(dataset))
  val_size = int((len(dataset) - train_size) / 2)
  test_size = val_size
  train_dataset, val_dataset, test_dataset =
      torch.utils.data.random_split(dataset, [train_size, val_size, test_size])
  \<close>
  \<open>0.6 * N\<close> is a double-precision product that \<open>int\<close> truncates. The double nearest
  to 0.6 lies \<open>2.2e-17\<close> below it, less than half a unit in the last place relative to any
  multiple of \<open>3/5\<close>; so for every \<open>N\<close> below \<open>2^50\<close> the rounded product
  truncates to the integer part of \<open>3N/5\<close>, which is what the model computes on \<open>nat\<close>.
  \<open>(N - train_size) / 2\<close> is exact in double precision, and \<open>int\<close> drops the half.
\<close>

definition train_size :: "nat \<Rightarrow> nat" where
  "train_size N = (3 * N) div 5"

definition val_size :: "nat \<Rightarrow> nat" where
  "val_size N = (N - train_size N) div 2"

definition test_size :: "nat \<Rightarrow> nat" where
  "test_size N = val_size N"

text \<open>
  \<^verbatim>\<open>torch.utils.data.random_split(dataset, lengths)\<close> is library code. Its body, since
  PyTorch 1.13 (older releases have only the test on the sum, and the \<^verbatim>\<open>ValueError\<close>):
  \<^verbatim>\<open>
  if math.isclose(sum(lengths), 1) and sum(lengths) <= 1:
      subset_lengths = []
      for i, frac in enumerate(lengths):
          if frac < 0 or frac > 1: raise ValueError(...)
          subset_lengths.append(int(math.floor(len(dataset) * frac)))
      remainder = len(dataset) - sum(subset_lengths)
      for i in range(remainder):
          subset_lengths[i % len(subset_lengths)] += 1
      lengths = subset_lengths
      for i, length in enumerate(lengths):
          if length == 0: warnings.warn("Length of split at index {i} is 0. ...")
  if sum(lengths) != len(dataset):
      raise ValueError("Sum of input lengths does not equal the length of the input dataset!")
  indices = randperm(sum(lengths)).tolist()
  return [Subset(dataset, indices[offset - length : offset])
          for offset, length in zip(accumulate(lengths), lengths)]
  \<close>
  The lengths the script passes are integers, so the first test holds exactly when they
  sum to 1; they are then read as fractions. The permutation drawn by \<^verbatim>\<open>randperm\<close>
  is an argument of the model (\<open>perm\<close>).
\<close>

fun accumulate :: "nat \<Rightarrow> nat list \<Rightarrow> nat list" where
  "accumulate acc [] = []"
| "accumulate acc (l # ls) = (acc + l) # accumulate (acc + l) ls"

fun round_robin :: "nat \<Rightarrow> nat \<Rightarrow> nat list \<Rightarrow> nat list" where
  "round_robin i 0 ls = ls"
| "round_robin i (Suc r) ls =
     round_robin (Suc i) r (ls[i mod length ls := ls ! (i mod length ls) + 1])"

definition empty_split_warnings :: "nat list \<Rightarrow> warning list" where
  "empty_split_warnings ls =
     map EmptySplit (filter (\<lambda>i. ls ! i = 0) [0..<length ls])"

definition fraction_lengths :: "nat \<Rightarrow> nat list \<Rightarrow> error + nat list" where
  "fraction_lengths n fracs =
     (if list_ex (\<lambda>frac. 1 < frac) fracs then Inl ValueError
      else let subset_lengths = map (\<lambda>frac. n * frac) fracs
           in Inr (round_robin 0 (n - sum_list subset_lengths) subset_lengths))"

definition slices :: "nat list \<Rightarrow> nat list \<Rightarrow> nat list list" where
  "slices indices lengths =
     map (\<lambda>(offset, l). take l (drop (offset - l) indices))
       (zip (accumulate 0 lengths) lengths)"

definition split_checked ::
  "nat \<Rightarrow> warning list \<Rightarrow> nat list \<Rightarrow> nat list \<Rightarrow> error + warning list \<times> nat list list" where
  "split_checked n warns lengths perm =
     (if sum_list lengths \<noteq> n then Inl ValueError
      else Inr (warns, slices perm lengths))"

definition random_split ::
  "nat \<Rightarrow> nat list \<Rightarrow> nat list \<Rightarrow> error + warning list \<times> nat list list" where
  "random_split n lengths perm =
     (if sum_list lengths = 1 then
        (case fraction_lengths n lengths of
           Inl e \<Rightarrow> Inl e
         | Inr ls \<Rightarrow> split_checked n (empty_split_warnings ls) ls perm)
      else split_checked n [] lengths perm)"

text \<open>
  \<open>randperm n\<close> returns a permutation of \<open>0, ..., n - 1\<close>; \<open>is_randperm\<close> says that a
  list is one.
\<close>

definition is_randperm :: "nat \<Rightarrow> nat list \<Rightarrow> bool" where
  "is_randperm n perm = (sort perm = [0..<n])"

text \<open>Lines 43 to 46: the three subsets, as lists of indices into the dataset.\<close>

record subsets =
  train_dataset :: "nat list"
  val_dataset :: "nat list"
  test_dataset :: "nat list"

definition split_dataset :: "nat \<Rightarrow> nat list \<Rightarrow> error + warning list \<times> subsets" where
  "split_dataset N perm =
     (case random_split N [train_size N, val_size N, test_size N] perm of
        Inl e \<Rightarrow> Inl e
      | Inr (warns, parts) \<Rightarrow>
          Inr (warns, \<lparr>train_dataset = parts ! 0, val_dataset = parts ! 1,
                       test_dataset = parts ! 2\<rparr>))"

text \<open>
  Line 37 builds the dataset with \<^verbatim>\<open>datasets.ImageFolder\<close>, which raises
  \<^verbatim>\<open>FileNotFoundError\<close> when it finds no class folder or no image file, so the
  script never holds an empty dataset. A dataset is represented by its \<^verbatim>\<open>targets\<close>,
  the class index of each image.
\<close>

definition image_folder :: "nat list \<Rightarrow> error + nat list" where
  "image_folder targets = (if targets = [] then Inl FileNotFoundError else Inr targets)"

definition load_and_split :: "nat list \<Rightarrow> nat list \<Rightarrow> error + warning list \<times> subsets" where
  "load_and_split targets perm =
     (case image_folder targets of
        Inl e \<Rightarrow> Inl e
      | Inr dataset \<Rightarrow> split_dataset (length dataset) perm)"

text \<open>
  Lines 93 and 94:
  \<^verbatim>\<open>dataset_sizes = {"train": len(train_dataset), "val": len(test_dataset)}\<close>
\<close>

datatype phase = Train | Val

fun dataset_sizes :: "subsets \<Rightarrow> phase \<Rightarrow> nat" where
  "dataset_sizes s Train = length (train_dataset s)"
| "dataset_sizes s Val = length (test_dataset s)"

section \<open>The balanced sampler (lines 70 to 84)\<close>

text \<open>
  \<^verbatim>\<open>
  def balanced_sampler(full_dataset, train_dataset):
      y_train_indices = train_dataset.indices
      y_train = [full_dataset.targets[i] for i in y_train_indices]
      class_sample_count = np.array(
          [len(np.where(y_train == t)[0]) for t in np.unique(y_train)])
      weight = 1. / class_sample_count
      samples_weight = np.array([weight[t] for t in y_train])
      samples_weight = torch.from_numpy(samples_weight)
      sampler = WeightedRandomSampler(
          samples_weight.type('torch.DoubleTensor'), len(samples_weight))
      return sampler
  \<close>
  \<^verbatim>\<open>np.unique\<close> returns the distinct labels in increasing order. \<^verbatim>\<open>y_train == t\<close>
  compares the list with a NumPy integer, which NumPy evaluates element by element, so
  \<^verbatim>\<open>len(np.where(...)[0])\<close> is the number of occurrences of \<open>t\<close>. \<^verbatim>\<open>weight\<close> has
  one entry per distinct label, in the order of \<^verbatim>\<open>np.unique\<close>, and \<^verbatim>\<open>weight[t]\<close> reads
  it at the label's value; an index past its end raises \<^verbatim>\<open>IndexError\<close>.
  \<^verbatim>\<open>WeightedRandomSampler\<close> raises \<^verbatim>\<open>ValueError\<close> when asked for no sample.
  Weights are double-precision numbers in the script and reals here. NumPy divides by a
  count of 0 with a warning and the result \<^verbatim>\<open>inf\<close>; no count is 0
  (\<open>class_sample_count_pos\<close> below), so the model has no such case.
\<close>

definition y_train :: "nat list \<Rightarrow> nat list \<Rightarrow> error + nat list" where
  "y_train targets indices =
     (if list_all (\<lambda>i. i < length targets) indices
      then Inr (map (\<lambda>i. targets ! i) indices) else Inl IndexError)"

definition np_unique :: "nat list \<Rightarrow> nat list" where
  "np_unique ys = sort (remdups ys)"

definition class_sample_count :: "nat list \<Rightarrow> nat list" where
  "class_sample_count ys = map (\<lambda>t. length (filter (\<lambda>y. y = t) ys)) (np_unique ys)"

definition weight :: "nat list \<Rightarrow> real list" where
  "weight ys = map (\<lambda>c. 1 / real c) (class_sample_count ys)"

definition samples_weight :: "nat list \<Rightarrow> error + real list" where
  "samples_weight ys =
     (if list_all (\<lambda>t. t < length (weight ys)) ys
      then Inr (map (\<lambda>t. weight ys ! t) ys) else Inl IndexError)"

record sampler =
  weights :: "real list"
  num_samples :: nat
  replacement :: bool

definition weighted_random_sampler :: "real list \<Rightarrow> nat \<Rightarrow> error + sampler" where
  "weighted_random_sampler ws n =
     (if n = 0 then Inl ValueError
      else Inr \<lparr>weights = ws, num_samples = n, replacement = True\<rparr>)"

definition balanced_sampler :: "nat list \<Rightarrow> nat list \<Rightarrow> error + sampler" where
  "balanced_sampler targets indices =
     (case y_train targets indices of
        Inl e \<Rightarrow> Inl e
      | Inr ys \<Rightarrow>
          (case samples_weight ys of
             Inl e \<Rightarrow> Inl e
           | Inr ws \<Rightarrow> weighted_random_sampler ws (length ws)))"

section \<open>The training loop (lines 98 to 182)\<close>

subsection \<open>The model, the optimizer and the scheduler\<close>

text \<open>
  Lines 186 to 194 load a pretrained \<^verbatim>\<open>resnet18\<close>, switch \<^verbatim>\<open>requires_grad\<close> off for all
  its parameters and replace its last layer by a new \<^verbatim>\<open>nn.Linear(num_ftrs, 2)\<close>. The
  model is therefore a frozen \<open>backbone\<close> (its parameters and batch-norm buffers) and
  the trainable layer \<open>fc\<close>; \<open>training\<close> is the mode flag that \<^verbatim>\<open>model.train()\<close> and
  \<^verbatim>\<open>model.eval()\<close> set. \<^verbatim>\<open>model.state_dict()\<close> holds the first two.
\<close>

record ('b, 'f) model =
  backbone :: 'b
  fc :: 'f
  training :: bool

definition state_dict :: "('b, 'f) model \<Rightarrow> 'b \<times> 'f" where
  "state_dict m = (backbone m, fc m)"

definition load_state_dict :: "('b, 'f) model \<Rightarrow> 'b \<times> 'f \<Rightarrow> ('b, 'f) model" where
  "load_state_dict m sd = m\<lparr>backbone := fst sd, fc := snd sd\<rparr>"

text \<open>
  \<^verbatim>\<open>optim.SGD(model_conv.fc.parameters(), lr=lr, momentum=0.9)\<close>: the optimizer holds
  the rate of its one parameter group and its momentum buffer, which does not exist before
  the first step. \<^verbatim>\<open>lr_scheduler.StepLR(optimizer_conv, step_size=7, gamma=0.1)\<close> counts
  its steps in \<open>last_epoch\<close>.
\<close>

record 'o optimizer =
  lr :: real
  momentum_buffer :: "'o option"

record scheduler =
  step_size :: nat
  gamma :: real
  last_epoch :: nat

definition SGD :: "real \<Rightarrow> 'o optimizer" where
  "SGD rate = \<lparr>lr = rate, momentum_buffer = None\<rparr>"

definition StepLR :: "nat \<Rightarrow> real \<Rightarrow> scheduler" where
  "StepLR n g = \<lparr>step_size = n, gamma = g, last_epoch = 0\<rparr>"

text \<open>
  \<^verbatim>\<open>scheduler.step()\<close> of \<^verbatim>\<open>StepLR\<close> adds one to \<open>last_epoch\<close> and multiplies the
  optimizer's rate by \<open>gamma\<close> when the new count is a multiple of \<open>step_size\<close>
  (which is 7 in the script, never 0).
\<close>

definition scheduler_step :: "'o optimizer \<times> scheduler \<Rightarrow> 'o optimizer \<times> scheduler" where
  "scheduler_step os =
     (let opt = fst os; sch = snd os; e = last_epoch sch + 1
      in (if e mod step_size sch \<noteq> 0 then opt else opt\<lparr>lr := lr opt * gamma sch\<rparr>,
          sch\<lparr>last_epoch := e\<rparr>))"

text \<open>
  The units the script takes from PyTorch are parameters of the model:
  \<^item> \<open>forward\<close> is \<^verbatim>\<open>model(inputs)\<close>, one score vector for each input of the batch;
  \<^item> \<open>track\<close> is what a forward pass in training mode does to the batch-norm running
    statistics of the backbone (in evaluation mode a forward pass changes nothing);
  \<^item> \<open>criterion\<close> is \<^verbatim>\<open>nn.CrossEntropyLoss()\<close>, the mean loss of a batch;
  \<^item> \<open>backward\<close> is \<^verbatim>\<open>loss.backward()\<close>, the gradient for the parameters that
    require one (those of \<open>fc\<close>);
  \<^item> \<open>sgd\<close> is \<^verbatim>\<open>optimizer.step()\<close> on the parameters the optimizer was given.
\<close>

record ('x, 'b, 'f, 'g, 'o) collaborators =
  forward :: "('b, 'f) model \<Rightarrow> 'x list \<Rightarrow> real list list"
  track :: "'b \<Rightarrow> 'x list \<Rightarrow> 'b"
  criterion :: "real list list \<Rightarrow> nat list \<Rightarrow> real"
  backward :: "('b, 'f) model \<Rightarrow> 'x list \<Rightarrow> nat list \<Rightarrow> 'g"
  sgd :: "real \<Rightarrow> 'o option \<Rightarrow> 'g \<Rightarrow> 'f \<Rightarrow> 'o \<times> 'f"

text \<open>
  \<^verbatim>\<open>_, preds = torch.max(outputs, 1)\<close>: for each row the index of its maximum, the
  first one when the maximum occurs several times. Rows have two entries here (the
  width of \<open>fc\<close>); \<^verbatim>\<open>torch.max\<close> rejects an empty row, for which \<open>argmax\<close> is 0.
\<close>

fun argmax_from :: "real \<Rightarrow> nat \<Rightarrow> nat \<Rightarrow> real list \<Rightarrow> nat" where
  "argmax_from best bi i [] = bi"
| "argmax_from best bi i (x # xs) =
     (if best < x then argmax_from x i (Suc i) xs else argmax_from best bi (Suc i) xs)"

definition argmax :: "real list \<Rightarrow> nat" where
  "argmax row = (case row of [] \<Rightarrow> 0 | x # xs \<Rightarrow> argmax_from x 0 1 xs)"

subsection \<open>The state of one call of \<^verbatim>\<open>train_model\<close>\<close>

text \<open>
  \<open>best_model_params\<close> is the content of the file \<^verbatim>\<open>best_model_params.pt\<close>. \<open>log\<close>
  records the calls that touch gradients, parameters and the file, in the order
  the script makes them; nothing reads it.
\<close>

datatype event = ZeroGrad | Forward bool | Backward | OptimStep | SchedulerStep | Save | Load

record ('b, 'f, 'o) run =
  model :: "('b, 'f) model"
  optimizer :: "'o optimizer"
  sched :: scheduler
  best_model_params :: "'b \<times> 'f"
  best_acc :: real
  train_losses :: "real list"
  val_losses :: "real list"
  log :: "event list"

definition emit :: "event \<Rightarrow> ('b, 'f, 'o) run \<Rightarrow> ('b, 'f, 'o) run" where
  "emit ev s = s\<lparr>log := log s @ [ev]\<rparr>"

subsection \<open>One batch (lines 125 to 146)\<close>

text \<open>
  \<^verbatim>\<open>
  optimizer.zero_grad()
  with torch.set_grad_enabled(phase == 'train'):
      outputs = model(inputs)
      _, preds = torch.max(outputs, 1)
      loss = criterion(outputs, labels)
      if phase == 'train':
          loss.backward()
          optimizer.step()
  running_loss += loss.item() * inputs.size(0)
  running_corrects += torch.sum(preds == labels.data)
  \<close>
  A batch is a list of (input, label) pairs.
\<close>

definition model_call ::
  "('x, 'b, 'f, 'g, 'o) collaborators \<Rightarrow> ('b, 'f) model \<Rightarrow> 'x list \<Rightarrow> ('b, 'f) model" where
  "model_call E m inputs =
     (if training m then m\<lparr>backbone := track E (backbone m) inputs\<rparr> else m)"

definition backward_and_step ::
  "('x, 'b, 'f, 'g, 'o) collaborators \<Rightarrow> ('b, 'f) model \<Rightarrow> 'x list \<Rightarrow> nat list \<Rightarrow>
     ('b, 'f, 'o) run \<Rightarrow> ('b, 'f, 'o) run" where
  "backward_and_step E m0 inputs labels s =
     (let g = backward E m0 inputs labels;
          s1 = emit Backward s;
          r = sgd E (lr (optimizer s1)) (momentum_buffer (optimizer s1)) g (fc (model s1))
      in emit OptimStep
           (s1\<lparr>model := (model s1)\<lparr>fc := snd r\<rparr>,
               optimizer := (optimizer s1)\<lparr>momentum_buffer := Some (fst r)\<rparr>\<rparr>))"

definition corrects :: "nat list \<Rightarrow> nat list \<Rightarrow> nat" where
  "corrects preds labels = length (filter (\<lambda>pl. fst pl = snd pl) (zip preds labels))"

record ('b, 'f, 'o) running =
  state :: "('b, 'f, 'o) run"
  running_loss :: real
  running_corrects :: nat

definition batch_step ::
  "('x, 'b, 'f, 'g, 'o) collaborators \<Rightarrow> phase \<Rightarrow> ('b, 'f, 'o) running \<Rightarrow> ('x \<times> nat) list \<Rightarrow>
     ('b, 'f, 'o) running" where
  "batch_step E ph r batch =
     (let inputs = map fst batch;
          labels = map snd batch;
          s1 = emit ZeroGrad (state r);
          m0 = model s1;
          outputs = forward E m0 inputs;
          s2 = emit (Forward (ph = Train)) (s1\<lparr>model := model_call E m0 inputs\<rparr>);
          preds = map argmax outputs;
          loss = criterion E outputs labels;
          s3 = (if ph = Train then backward_and_step E m0 inputs labels s2 else s2)
      in \<lparr>state = s3,
          running_loss = running_loss r + loss * real (length inputs),
          running_corrects = running_corrects r + corrects preds labels\<rparr>)"

text \<open>The state that a batch leaves, from the state in which it starts.\<close>

definition after_batch ::
  "('x, 'b, 'f, 'g, 'o) collaborators \<Rightarrow> phase \<Rightarrow> ('b, 'f, 'o) run \<Rightarrow> ('x \<times> nat) list \<Rightarrow>
     ('b, 'f, 'o) run" where
  "after_batch E ph s batch =
     state (batch_step E ph \<lparr>state = s, running_loss = 0, running_corrects = 0\<rparr> batch)"

subsection \<open>One phase of an epoch (lines 115 to 162)\<close>

text \<open>
  \<^verbatim>\<open>
  for phase in ['train', 'val']:
      if phase == 'train': model.train()
      else: model.eval()
      running_loss = 0.0
      running_corrects = 0
      for inputs, labels in dataloaders[phase]: ...
      if phase == 'train':
          scheduler.step()
      epoch_loss = running_loss / dataset_sizes[phase]
      epoch_acc = running_corrects.double() / dataset_sizes[phase]
      if phase == 'train': train_losses.append(epoch_loss)
      else: val_losses.append(epoch_loss)
      print(f'{phase} Loss: {epoch_loss:.4f} Acc: {epoch_acc:.4f}')
      if phase == 'val' and epoch_acc > best_acc:
          best_acc = epoch_acc
          torch.save(model.state_dict(), best_model_params_path)
  \<close>
  \<open>running_loss\<close> is a Python float, so dividing it by a size of 0 raises
  \<^verbatim>\<open>ZeroDivisionError\<close>. \<open>running_corrects\<close> is a tensor only after the first batch; with no
  batch it is still the integer 0, which has no method \<^verbatim>\<open>double\<close>. The phase returns the
  two numbers it prints, and the new state.
\<close>

definition set_mode :: "phase \<Rightarrow> ('b, 'f, 'o) run \<Rightarrow> ('b, 'f, 'o) run" where
  "set_mode ph s = s\<lparr>model := (model s)\<lparr>training := (ph = Train)\<rparr>\<rparr>"

definition step_scheduler :: "('b, 'f, 'o) run \<Rightarrow> ('b, 'f, 'o) run" where
  "step_scheduler s =
     (let os = scheduler_step (optimizer s, sched s)
      in emit SchedulerStep (s\<lparr>optimizer := fst os, sched := snd os\<rparr>))"

definition run_batches ::
  "('x, 'b, 'f, 'g, 'o) collaborators \<Rightarrow> phase \<Rightarrow> ('b, 'f, 'o) run \<Rightarrow> ('x \<times> nat) list list \<Rightarrow>
     ('b, 'f, 'o) running" where
  "run_batches E ph s batches =
     foldl (batch_step E ph) \<lparr>state = s, running_loss = 0, running_corrects = 0\<rparr> batches"

definition checkpoint :: "phase \<Rightarrow> real \<Rightarrow> ('b, 'f, 'o) run \<Rightarrow> ('b, 'f, 'o) run" where
  "checkpoint ph epoch_acc s =
     (if ph = Val \<and> best_acc s < epoch_acc
      then emit Save (s\<lparr>best_acc := epoch_acc, best_model_params := state_dict (model s)\<rparr>)
      else s)"

definition run_phase ::
  "('x, 'b, 'f, 'g, 'o) collaborators \<Rightarrow> ('x \<times> nat) list list \<Rightarrow> nat \<Rightarrow> phase \<Rightarrow>
     ('b, 'f, 'o) run \<Rightarrow> error + real \<times> real \<times> ('b, 'f, 'o) run" where
  "run_phase E batches dataset_size ph s =
     (let r = run_batches E ph (set_mode ph s) batches;
          s1 = (if ph = Train then step_scheduler (state r) else state r)
      in if dataset_size = 0 then Inl ZeroDivisionError
         else if batches = [] then Inl AttributeError
         else
           let epoch_loss = running_loss r / real dataset_size;
               epoch_acc = real (running_corrects r) / real dataset_size;
               s2 = (if ph = Train then s1\<lparr>train_losses := train_losses s1 @ [epoch_loss]\<rparr>
                     else s1\<lparr>val_losses := val_losses s1 @ [epoch_loss]\<rparr>)
           in Inr (epoch_loss, epoch_acc, checkpoint ph epoch_acc s2))"

subsection \<open>The epochs and the restoration (lines 98 to 182)\<close>

text \<open>
  \<open>loaders e ph\<close> is the list of batches that iterating \<^verbatim>\<open>dataloaders[ph]\<close> yields in
  epoch \<open>e\<close> (the loaders shuffle, so each epoch has its own), \<open>sizes\<close> is
  \<^verbatim>\<open>dataset_sizes\<close>. An exception leaves \<^verbatim>\<open>train_model\<close> at once.
\<close>

definition epoch ::
  "('x, 'b, 'f, 'g, 'o) collaborators \<Rightarrow> (nat \<Rightarrow> phase \<Rightarrow> ('x \<times> nat) list list) \<Rightarrow>
     (phase \<Rightarrow> nat) \<Rightarrow> nat \<Rightarrow> ('b, 'f, 'o) run \<Rightarrow> error + ('b, 'f, 'o) run" where
  "epoch E loaders sizes e s =
     (case run_phase E (loaders e Train) (sizes Train) Train s of
        Inl err \<Rightarrow> Inl err
      | Inr res1 \<Rightarrow>
          (case run_phase E (loaders e Val) (sizes Val) Val (snd (snd res1)) of
             Inl err \<Rightarrow> Inl err
           | Inr res2 \<Rightarrow> Inr (snd (snd res2))))"

fun run_epochs ::
  "('x, 'b, 'f, 'g, 'o) collaborators \<Rightarrow> (nat \<Rightarrow> phase \<Rightarrow> ('x \<times> nat) list list) \<Rightarrow>
     (phase \<Rightarrow> nat) \<Rightarrow> ('b, 'f, 'o) run \<Rightarrow> nat list \<Rightarrow> error + ('b, 'f, 'o) run" where
  "run_epochs E loaders sizes s [] = Inr s"
| "run_epochs E loaders sizes s (e # es) =
     (case epoch E loaders sizes e s of
        Inl err \<Rightarrow> Inl err
      | Inr s' \<Rightarrow> run_epochs E loaders sizes s' es)"

definition initial_run ::
  "('b, 'f) model \<Rightarrow> 'o optimizer \<Rightarrow> scheduler \<Rightarrow> ('b, 'f, 'o) run" where
  "initial_run m opt sch =
     \<lparr>model = m, optimizer = opt, sched = sch, best_model_params = state_dict m,
      best_acc = 0, train_losses = [], val_losses = [], log = [Save]\<rparr>"

definition restore :: "('b, 'f, 'o) run \<Rightarrow> ('b, 'f, 'o) run" where
  "restore s = emit Load (s\<lparr>model := load_state_dict (model s) (best_model_params s)\<rparr>)"

definition train_model ::
  "('x, 'b, 'f, 'g, 'o) collaborators \<Rightarrow> (nat \<Rightarrow> phase \<Rightarrow> ('x \<times> nat) list list) \<Rightarrow>
     (phase \<Rightarrow> nat) \<Rightarrow> ('b, 'f) model \<Rightarrow> 'o optimizer \<Rightarrow> scheduler \<Rightarrow> nat \<Rightarrow>
     error + ('b, 'f, 'o) run" where
  "train_model E loaders sizes m opt sch num_epochs =
     (case run_epochs E loaders sizes (initial_run m opt sch) [0..<num_epochs] of
        Inl err \<Rightarrow> Inl err
      | Inr s \<Rightarrow> Inr (restore s))"

section \<open>The sweep over learning rates (lines 201 to 212)\<close>

text \<open>
  \<^verbatim>\<open>
  learning_rates = [0.0005, 0.001, 0.005, 0.01, 0.05, 0.1]
  for learning_rate in learning_rates:
      lr = learning_rate
      optimizer_conv = optim.SGD(model_conv.fc.parameters(), lr=lr, momentum=0.9)
      exp_lr_scheduler = lr_scheduler.StepLR(optimizer_conv, step_size=7, gamma=0.1)
      model_conv = train_model(model_conv, criterion, optimizer_conv,
                               exp_lr_scheduler, num_epochs=num_epochs)
  \<close>
  \<open>loaders k\<close> gives the batches of the \<open>k\<close>-th call of \<^verbatim>\<open>train_model\<close>. The sweep
  returns what each call left (its state after the restoration) and the final model.
\<close>

definition learning_rates :: "real list" where
  "learning_rates = [5 / 10000, 1 / 1000, 5 / 1000, 1 / 100, 5 / 100, 1 / 10]"

fun sweep ::
  "('x, 'b, 'f, 'g, 'o) collaborators \<Rightarrow> (nat \<Rightarrow> nat \<Rightarrow> phase \<Rightarrow> ('x \<times> nat) list list) \<Rightarrow>
     (phase \<Rightarrow> nat) \<Rightarrow> nat \<Rightarrow> nat \<Rightarrow> ('b, 'f) model \<Rightarrow> real list \<Rightarrow>
     error + ('b, 'f, 'o) run list \<times> ('b, 'f) model" where
  "sweep E loaders sizes num_epochs k model_conv [] = Inr ([], model_conv)"
| "sweep E loaders sizes num_epochs k model_conv (learning_rate # rest) =
     (let optimizer_conv = SGD learning_rate;
          exp_lr_scheduler = StepLR 7 (1 / 10)
      in case train_model E (loaders k) sizes model_conv optimizer_conv exp_lr_scheduler
                num_epochs of
           Inl err \<Rightarrow> Inl err
         | Inr r \<Rightarrow>
             (case sweep E loaders sizes num_epochs (Suc k) (model r) rest of
                Inl err \<Rightarrow> Inl err
              | Inr res \<Rightarrow> Inr (r # fst res, snd res)))"

section \<open>What the specification says an epoch computes\<close>

text \<open>
  The specification describes the statistics of an epoch in its own words: the predicted
  class of an example is the index of the maximum of its score vector, the lowest such
  index when there are several; a prediction is correct when it is the label; an epoch
  returns the sum over its batches of loss times batch size, and the sum of the correct
  predictions, each divided by the number of examples. The definitions below follow
  these words; the theorems compare them with the loop.
\<close>

definition is_first_max :: "real list \<Rightarrow> nat \<Rightarrow> bool" where
  "is_first_max row i \<longleftrightarrow>
     i < length row \<and> list_all (\<lambda>j. row ! j \<le> row ! i) [0..<length row] \<and>
     list_all (\<lambda>j. row ! j < row ! i) [0..<i]"

definition correct_predictions :: "real list list \<Rightarrow> nat list \<Rightarrow> nat" where
  "correct_predictions outputs labels =
     length (filter (\<lambda>i. is_first_max (outputs ! i) (labels ! i))
       [0..<min (length outputs) (length labels)])"

text \<open>
  For each batch of a phase, in order: its loss, its size and its number of correct
  predictions, each computed with the model as it is when the batch starts.
\<close>

fun batch_stats ::
  "('x, 'b, 'f, 'g, 'o) collaborators \<Rightarrow> phase \<Rightarrow> ('b, 'f, 'o) run \<Rightarrow> ('x \<times> nat) list list \<Rightarrow>
     (real \<times> nat \<times> nat) list" where
  "batch_stats E ph s [] = []"
| "batch_stats E ph s (batch # batches) =
     (let outputs = forward E (model s) (map fst batch);
          labels = map snd batch
      in (criterion E outputs labels, length batch, correct_predictions outputs labels)
         # batch_stats E ph (after_batch E ph s batch) batches)"

definition accumulated_loss :: "(real \<times> nat \<times> nat) list \<Rightarrow> real" where
  "accumulated_loss stats = sum_list (map (\<lambda>st. fst st * real (fst (snd st))) stats)"

definition accumulated_correct :: "(real \<times> nat \<times> nat) list \<Rightarrow> nat" where
  "accumulated_correct stats = sum_list (map (\<lambda>st. snd (snd st)) stats)"

text \<open>
  A small instance of the collaborators, for evaluating the loop on concrete data: inputs
  are reals, the backbone has one buffer that counts the training-mode forward passes,
  \<open>fc\<close> is one real \<open>w\<close>, the scores of \<open>x\<close> are \<open>[0, w * x]\<close>, the loss of a batch
  is its number of wrong predictions, the gradient is \<open>-1\<close> and the optimizer step is
  plain gradient descent that keeps the last gradient as its buffer.
\<close>

definition toy :: "(real, nat, real, real, real) collaborators" where
  "toy = \<lparr>forward = (\<lambda>m xs. map (\<lambda>x. [0, fc m * x]) xs),
          track = (\<lambda>b xs. Suc b),
          criterion = (\<lambda>outs labels. real (length labels - corrects (map argmax outs) labels)),
          backward = (\<lambda>m xs labels. - 1),
          sgd = (\<lambda>rate buf g w. (g, w - rate * g))\<rparr>"

definition toy_model :: "(nat, real) model" where
  "toy_model = \<lparr>backbone = 0, fc = - 1, training = False\<rparr>"

definition toy_loaders :: "nat \<Rightarrow> phase \<Rightarrow> (real \<times> nat) list list" where
  "toy_loaders e ph = (if ph = Train then [[(1, 1), (2, 1)], [(- 1, 0)]] else [[(1, 1)], [(- 2, 0)]])"

fun toy_sizes :: "phase \<Rightarrow> nat" where
  "toy_sizes Train = 3"
| "toy_sizes Val = 2"

definition toy_start :: "(nat, real, real) run" where
  "toy_start = initial_run toy_model (SGD (1 / 2)) (StepLR 7 (1 / 10))"

section \<open>Properties of the split\<close>

lemma halves_sum: "(t::nat) \<le> N \<Longrightarrow> (t + (N - t) div 2 + (N - t) div 2 = N) = even (N - t)"
  by presburger

lemma train_size_bounds: "5 * train_size N \<le> 3 * N" "3 * N < 5 * train_size N + 5"
proof -
  have "3 * N = 5 * ((3 * N) div 5) + (3 * N) mod 5" by simp
  moreover have "(3 * N) mod 5 < 5" by simp
  ultimately show "5 * train_size N \<le> 3 * N" "3 * N < 5 * train_size N + 5"
    unfolding train_size_def by linarith+
qed

lemma val_size_bounds:
  "2 * val_size N \<le> N - train_size N" "N - train_size N \<le> 2 * val_size N + 1"
  unfolding val_size_def by linarith+

lemma train_size_le: "train_size N \<le> N"
  using train_size_bounds(1)[of N] by linarith

text \<open>The three sizes add up to \<open>N\<close> exactly when what the train set leaves is even.\<close>

lemma sizes_sum_eq:
  "train_size N + val_size N + test_size N = N \<longleftrightarrow> even (N - train_size N)"
  unfolding val_size_def test_size_def using halves_sum[OF train_size_le] by simp

lemma sizes_le: "train_size N + val_size N + test_size N \<le> N"
  unfolding test_size_def
  using val_size_bounds[of N] train_size_le[of N] by linarith

text \<open>Only for two images do the sizes add up to 1 and get read as fractions.\<close>

lemma sizes_sum_1: "train_size N + val_size N + test_size N = 1 \<longleftrightarrow> N = 2"
proof
  assume "train_size N + val_size N + test_size N = 1"
  then have s1: "train_size N + val_size N + val_size N = 1"
    by (simp add: test_size_def)
  then have v: "val_size N = 0" by (cases "val_size N") simp_all
  with s1 have tv: "train_size N = 1" "val_size N = 0" by simp_all
  from tv val_size_bounds(2)[of N] have "N \<le> 2" by linarith
  moreover from tv train_size_bounds(1)[of N] have "2 \<le> N" by linarith
  ultimately show "N = 2" by linarith
next
  assume "N = 2"
  then show "train_size N + val_size N + test_size N = 1"
    by (simp add: train_size_def val_size_def test_size_def)
qed

lemma slices3:
  "slices perm [a, b, c] = [take a perm, take b (drop a perm), take c (drop (a + b) perm)]"
  by (simp add: slices_def)

lemma is_randperm_length: "is_randperm n perm \<Longrightarrow> length perm = n"
  unfolding is_randperm_def by (metis length_sort length_upt diff_zero)

lemma is_randperm_distinct: "is_randperm n perm \<Longrightarrow> distinct perm"
  unfolding is_randperm_def by (metis distinct_sort distinct_upt)

lemma is_randperm_set: "is_randperm n perm \<Longrightarrow> set perm = {0..<n}"
  unfolding is_randperm_def by (metis set_sort set_upt)

text \<open>
  What the split returns, for every size but 2: the three slices of the permutation when
  the sizes add up to \<open>N\<close>, the \<^verbatim>\<open>ValueError\<close> of \<^verbatim>\<open>random_split\<close> when they do not.
\<close>

lemma split_dataset_even:
  assumes "N \<noteq> 2" and "even (N - train_size N)"
  shows "split_dataset N perm =
     Inr ([], \<lparr>train_dataset = take (train_size N) perm,
                val_dataset = take (val_size N) (drop (train_size N) perm),
                test_dataset = take (test_size N) (drop (train_size N + val_size N) perm)\<rparr>)"
proof -
  from assms(1) have "sum_list [train_size N, val_size N, test_size N] \<noteq> 1"
    using sizes_sum_1[of N] by simp
  moreover from assms(2) have "sum_list [train_size N, val_size N, test_size N] = N"
    using sizes_sum_eq[of N] by simp
  ultimately show ?thesis
    by (simp add: split_dataset_def random_split_def split_checked_def slices3)
qed

lemma split_dataset_odd:
  assumes "N \<noteq> 2" and "odd (N - train_size N)"
  shows "split_dataset N perm = Inl ValueError"
proof -
  from assms(1) have "sum_list [train_size N, val_size N, test_size N] \<noteq> 1"
    using sizes_sum_1[of N] by simp
  moreover from assms(2) have "sum_list [train_size N, val_size N, test_size N] \<noteq> N"
    using sizes_sum_eq[of N] by simp
  ultimately show ?thesis
    by (simp add: split_dataset_def random_split_def split_checked_def)
qed

text \<open>
  Two images: the lengths \<open>[1, 0, 0]\<close> are read as fractions, the train set gets both
  images and \<^verbatim>\<open>random_split\<close> warns about the two empty sets.
\<close>

lemma split_dataset_2:
  "split_dataset 2 perm =
     Inr ([EmptySplit 1, EmptySplit 2],
          \<lparr>train_dataset = take 2 perm, val_dataset = [], test_dataset = []\<rparr>)"
  by (simp add: split_dataset_def random_split_def split_checked_def slices3 train_size_def
      val_size_def test_size_def fraction_lengths_def empty_split_warnings_def upt_rec)

lemma val_test_same_length:
  assumes "split_dataset N perm = Inr (warns, s)" and "is_randperm N perm"
  shows "length (test_dataset s) = length (val_dataset s)"
proof (cases "N = 2")
  case True
  with assms(1) show ?thesis by (auto simp: split_dataset_2)
next
  case False
  show ?thesis
  proof (cases "even (N - train_size N)")
    case True
    have len: "length perm = N" using assms(2) by (rule is_randperm_length)
    have "train_size N + val_size N + test_size N = N"
      using True sizes_sum_eq by simp
    then have "val_size N \<le> N - train_size N"
      and "test_size N \<le> N - (train_size N + val_size N)"
      and "test_size N = val_size N"
      by (simp_all add: test_size_def)
    with assms(1) split_dataset_even[OF False True, of perm] len show ?thesis
      by auto
  next
    case odd: False
    with assms(1) split_dataset_odd[OF False odd, of perm] show ?thesis by simp
  qed
qed

text \<open>
  When the split succeeds, the three subsets are pairwise disjoint and together hold every
  index of the dataset; unless the dataset has two images, they have the sizes computed
  in lines 43 to 45.
\<close>

lemma three_slices:
  assumes "distinct perm" and "length perm = a + b + c"
  shows "set (take a perm) \<inter> set (take b (drop a perm)) = {}"
    and "set (take a perm) \<inter> set (take c (drop (a + b) perm)) = {}"
    and "set (take b (drop a perm)) \<inter> set (take c (drop (a + b) perm)) = {}"
    and "set (take a perm) \<union> set (take b (drop a perm)) \<union> set (take c (drop (a + b) perm))
           = set perm"
proof -
  have c: "take c (drop (a + b) perm) = drop (a + b) perm"
    using assms(2) by simp
  have split: "perm = take a perm @ take b (drop a perm) @ drop (a + b) perm"
    by (metis append_take_drop_id drop_drop add.commute)
  from assms(1) have d: "distinct (take a perm @ take b (drop a perm) @ drop (a + b) perm)"
    using split by simp
  from d show "set (take a perm) \<inter> set (take b (drop a perm)) = {}"
    by auto
  from d show "set (take a perm) \<inter> set (take c (drop (a + b) perm)) = {}"
    unfolding c by auto
  from d show "set (take b (drop a perm)) \<inter> set (take c (drop (a + b) perm)) = {}"
    unfolding c by auto
  have "set perm = set (take a perm @ take b (drop a perm) @ drop (a + b) perm)"
    using split by simp
  then show "set (take a perm) \<union> set (take b (drop a perm)) \<union> set (take c (drop (a + b) perm))
           = set perm"
    unfolding c by auto
qed

lemma split_dataset_partition:
  assumes "split_dataset N perm = Inr (warns, s)" and "is_randperm N perm"
  shows "set (train_dataset s) \<inter> set (val_dataset s) = {}"
    and "set (train_dataset s) \<inter> set (test_dataset s) = {}"
    and "set (val_dataset s) \<inter> set (test_dataset s) = {}"
    and "set (train_dataset s) \<union> set (val_dataset s) \<union> set (test_dataset s) = {0..<N}"
    and "N \<noteq> 2 \<Longrightarrow> length (train_dataset s) = train_size N \<and>
           length (val_dataset s) = val_size N \<and> length (test_dataset s) = test_size N"
proof -
  have len: "length perm = N" and dist: "distinct perm" and elems: "set perm = {0..<N}"
    using assms(2) by (simp_all add: is_randperm_length is_randperm_distinct is_randperm_set)
  have s: "s = \<lparr>train_dataset = take 2 perm, val_dataset = [], test_dataset = []\<rparr>" if "N = 2"
    using assms(1) that by (simp add: split_dataset_2)
  have ev: "even (N - train_size N)" if "N \<noteq> 2"
  proof (rule ccontr)
    assume "odd (N - train_size N)"
    from split_dataset_odd[OF that this, of perm] assms(1) show False by simp
  qed
  have s': "s = \<lparr>train_dataset = take (train_size N) perm,
                val_dataset = take (val_size N) (drop (train_size N) perm),
                test_dataset = take (test_size N) (drop (train_size N + val_size N) perm)\<rparr>"
    and sum: "length perm = train_size N + val_size N + test_size N" if "N \<noteq> 2"
    using assms(1) split_dataset_even[OF that ev[OF that], of perm] sizes_sum_eq[of N] ev[OF that] len
    by simp_all
  show "set (train_dataset s) \<inter> set (val_dataset s) = {}"
    using s s' three_slices(1)[OF dist sum] by (cases "N = 2") auto
  show "set (train_dataset s) \<inter> set (test_dataset s) = {}"
    using s s' three_slices(2)[OF dist sum] by (cases "N = 2") auto
  show "set (val_dataset s) \<inter> set (test_dataset s) = {}"
    using s s' three_slices(3)[OF dist sum] by (cases "N = 2") auto
  show "set (train_dataset s) \<union> set (val_dataset s) \<union> set (test_dataset s) = {0..<N}"
  proof (cases "N = 2")
    case True
    then show ?thesis using s len elems by simp
  next
    case False
    then show ?thesis using s'[OF False] three_slices(4)[OF dist sum[OF False]] elems by simp
  qed
  show "length (train_dataset s) = train_size N \<and>
           length (val_dataset s) = val_size N \<and> length (test_dataset s) = test_size N"
    if "N \<noteq> 2"
    using s'[OF that] sum[OF that] by simp
qed

text \<open>
  C4. For a dataset of six images the sizes are 3, 1 and 1; they add up to 5, and
  \<^verbatim>\<open>random_split\<close> raises \<^verbatim>\<open>ValueError\<close> instead of leaving the sixth image out: the
  split does not complete. (By \<open>split_dataset_odd\<close> the same happens for every size
  whose remainder after the train set is odd; by \<open>split_dataset_partition\<close> a split that
  completes leaves no index out.)
\<close>

theorem split_of_six_raises:
  "train_size 6 = 3 \<and> val_size 6 = 1 \<and> test_size 6 = 1 \<and>
   split_dataset 6 perm = Inl ValueError"
  by (simp add: split_dataset_def random_split_def split_checked_def train_size_def
      val_size_def test_size_def)

text \<open>
  C10. Whenever the split succeeds, the size the script stores for the validation phase,
  the length of the test set, is also the length of the validation set; so a validation
  phase divides by the number of validation examples.
\<close>

theorem val_size_from_test_set:
  assumes "split_dataset N perm = Inr (warns, s)" and "is_randperm N perm"
  shows "dataset_sizes s Val = length (test_dataset s) \<and>
         dataset_sizes s Val = length (val_dataset s) \<and>
         run_phase E batches (dataset_sizes s Val) Val st =
           run_phase E batches (length (val_dataset s)) Val st"
  using val_test_same_length[OF assms] by simp

theorem val_size_from_test_set_witness:
  "split_dataset 5 [4, 2, 0, 1, 3] =
     Inr ([], \<lparr>train_dataset = [4, 2, 0], val_dataset = [1], test_dataset = [3]\<rparr>) \<and>
   is_randperm 5 [4, 2, 0, 1, 3] \<and>
   dataset_sizes \<lparr>train_dataset = [4, 2, 0], val_dataset = [1], test_dataset = [3]\<rparr> Val = 1 \<and>
   length (val_dataset \<lparr>train_dataset = [4, 2, 0], val_dataset = [1], test_dataset = [3]\<rparr>) = 1"
proof -
  have a: "split_dataset 5 [4, 2, 0, 1, 3] =
     Inr ([], \<lparr>train_dataset = [4, 2, 0], val_dataset = [1], test_dataset = [3]\<rparr>)"
    by (simp add: split_dataset_def random_split_def split_checked_def slices3 train_size_def
        val_size_def test_size_def)
  have b: "is_randperm 5 [4, 2, 0, 1, 3]"
    by (simp add: is_randperm_def upt_rec)
  from val_size_from_test_set[OF a b] a b show ?thesis by simp
qed

text \<open>
  C9. For a dataset of fewer than three images, loading and splitting never hands over an
  empty subset without a signal: with no image \<^verbatim>\<open>ImageFolder\<close> raises, with one image
  \<^verbatim>\<open>random_split\<close> raises, and with two images \<^verbatim>\<open>random_split\<close> warns about each
  empty subset it returns.
\<close>

theorem small_dataset_signalled:
  assumes "length targets < 3" and "is_randperm (length targets) perm"
  shows "case load_and_split targets perm of
           Inl e \<Rightarrow> True
         | Inr (warns, s) \<Rightarrow>
             (train_dataset s = [] \<longrightarrow> EmptySplit 0 \<in> set warns) \<and>
             (val_dataset s = [] \<longrightarrow> EmptySplit 1 \<in> set warns) \<and>
             (test_dataset s = [] \<longrightarrow> EmptySplit 2 \<in> set warns)"
proof -
  from assms(1) consider "targets = []" | "length targets = 1" | "length targets = 2"
    by (cases targets) (auto simp: less_Suc_eq numeral_3_eq_3)
  then show ?thesis
  proof cases
    case 1
    then show ?thesis by (simp add: load_and_split_def image_folder_def)
  next
    case 2
    then have "targets \<noteq> []" by auto
    moreover have "split_dataset 1 perm = Inl ValueError"
      by (rule split_dataset_odd) (simp_all add: train_size_def)
    ultimately show ?thesis using 2 by (simp add: load_and_split_def image_folder_def)
  next
    case 3
    then have ne: "targets \<noteq> []" by auto
    from assms(2) 3 have "length perm = 2" by (simp add: is_randperm_length)
    then have "take 2 perm \<noteq> []" by auto
    with ne 3 show ?thesis
      by (simp add: load_and_split_def image_folder_def split_dataset_2)
  qed
qed

theorem small_dataset_signalled_witness:
  "length [0, 1 :: nat] < 3 \<and> is_randperm (length [0, 1 :: nat]) [1, 0] \<and>
   load_and_split [0, 1] [1, 0] =
     Inr ([EmptySplit 1, EmptySplit 2],
          \<lparr>train_dataset = [1, 0], val_dataset = [], test_dataset = []\<rparr>) \<and>
   EmptySplit 1 \<in> set [EmptySplit 1, EmptySplit 2] \<and>
   EmptySplit 2 \<in> set [EmptySplit 1, EmptySplit 2]"
proof -
  have a: "length [0, 1 :: nat] < 3" by simp
  have b: "is_randperm (length [0, 1 :: nat]) [1, 0]"
    by (simp add: is_randperm_def upt_rec)
  have c: "load_and_split [0, 1] [1, 0] =
     Inr ([EmptySplit 1, EmptySplit 2],
          \<lparr>train_dataset = [1, 0], val_dataset = [], test_dataset = []\<rparr>)"
    using split_dataset_2[of "[1, 0]"]
    by (simp add: load_and_split_def image_folder_def numeral_2_eq_2)
  from small_dataset_signalled[OF a b] a b c show ?thesis by simp
qed

section \<open>Properties of the balanced sampler\<close>

lemma np_unique_sorted: "sorted (np_unique ys)" "distinct (np_unique ys)" "set (np_unique ys) = set ys"
  by (simp_all add: np_unique_def)

lemma length_np_unique: "length (np_unique ys) = card (set ys)"
  by (metis np_unique_sorted(2,3) distinct_card)

lemma np_unique_contiguous: "set ys = {0..<k} \<Longrightarrow> np_unique ys = [0..<k]"
  by (rule sorted_distinct_set_unique) (simp_all add: np_unique_sorted)

lemma count_filter: "length (filter (\<lambda>y. y = t) ys) = count_list ys t"
  by (induction ys) auto

lemma length_weight: "length (weight ys) = card (set ys)"
  by (simp add: weight_def class_sample_count_def length_np_unique)

lemma class_sample_count_pos: "list_all (\<lambda>c. 0 < c) (class_sample_count ys)"
proof -
  have "0 < count_list ys t" if "t \<in> set ys" for t
    using that count_list_0_iff[of ys t] by simp
  then show ?thesis
    by (simp add: class_sample_count_def list_all_iff count_filter np_unique_sorted(3))
qed

lemma weight_contiguous:
  assumes "set ys = {0..<k}" and "t < k"
  shows "weight ys ! t = 1 / real (count_list ys t)"
  using assms
  by (simp add: weight_def class_sample_count_def np_unique_contiguous count_filter)

text \<open>
  When the labels of the training subset are exactly \<open>0, ..., k - 1\<close>, the position of
  a label in \<^verbatim>\<open>np.unique\<close> is the label itself and every example gets one over the count
  of its class. Otherwise the largest label is past the end of \<^verbatim>\<open>weight\<close> and the
  function raises.
\<close>

lemma samples_weight_contiguous:
  assumes "set ys = {0..<k}"
  shows "samples_weight ys = Inr (map (\<lambda>t. 1 / real (count_list ys t)) ys)"
proof -
  have k: "length (weight ys) = k" using assms by (simp add: length_weight)
  have "list_all (\<lambda>t. t < length (weight ys)) ys"
    using assms k by (auto simp: list_all_iff)
  moreover have "map (\<lambda>t. weight ys ! t) ys = map (\<lambda>t. 1 / real (count_list ys t)) ys"
    using assms by (intro map_cong refl weight_contiguous) auto
  ultimately show ?thesis by (simp add: samples_weight_def)
qed

lemma samples_weight_gap:
  assumes "set ys \<noteq> {0..<card (set ys)}"
  shows "samples_weight ys = Inl IndexError"
proof -
  have "\<not> set ys \<subseteq> {0..<card (set ys)}"
  proof
    assume sub: "set ys \<subseteq> {0..<card (set ys)}"
    have "set ys = {0..<card (set ys)}"
      by (rule card_subset_eq[OF _ sub]) simp_all
    with assms show False by simp
  qed
  then have "\<not> list_all (\<lambda>t. t < length (weight ys)) ys"
    by (auto simp: list_all_iff length_weight)
  then show ?thesis by (simp add: samples_weight_def)
qed

text \<open>The weights of the examples of one class add up to 1.\<close>

lemma class_weights_sum:
  assumes "c \<in> set ys"
  shows "sum_list (map (\<lambda>t. 1 / real (count_list ys t)) (filter (\<lambda>t. t = c) ys)) = 1"
proof -
  have pos: "0 < count_list ys c" using assms count_list_0_iff[of ys c] by simp
  have "map (\<lambda>t. 1 / real (count_list ys t)) (filter (\<lambda>t. t = c) ys)
        = replicate (count_list ys c) (1 / real (count_list ys c))"
    by (auto simp: count_filter[symmetric] intro!: replicate_eqI)
  then show ?thesis using pos by (simp add: sum_list_replicate)
qed

lemma balanced_sampler_contiguous:
  assumes "y_train targets indices = Inr ys" and "ys \<noteq> []" and "set ys = {0..<k}"
  shows "balanced_sampler targets indices =
     Inr \<lparr>weights = map (\<lambda>t. 1 / real (count_list ys t)) ys,
          num_samples = length ys, replacement = True\<rparr>"
  using assms
  by (simp add: balanced_sampler_def samples_weight_contiguous weighted_random_sampler_def)

lemma balanced_sampler_gap:
  assumes "y_train targets indices = Inr ys" and "set ys \<noteq> {0..<card (set ys)}"
  shows "balanced_sampler targets indices = Inl IndexError"
  using assms by (simp add: balanced_sampler_def samples_weight_gap)

text \<open>
  C1. A dataset of five images, the first of class 0 and four of class 1, split into the
  training subset 1, 2, 3: all three are of class 1, \<^verbatim>\<open>weight\<close> has the single
  entry \<open>1 / 3\<close> at position 0, and \<^verbatim>\<open>weight[1]\<close> raises \<^verbatim>\<open>IndexError\<close>; no weight
  vector is produced. (By \<open>balanced_sampler_gap\<close> this happens whenever the labels of the
  training subset are not \<open>0, ..., k - 1\<close>; by \<open>balanced_sampler_contiguous\<close> and
  \<open>class_weights_sum\<close> the weights are one over the class count, and add up to 1 in each
  class, when they are.)
\<close>

theorem balanced_sampler_class_1_only_raises:
  "split_dataset 5 [1, 2, 3, 0, 4] =
     Inr ([], \<lparr>train_dataset = [1, 2, 3], val_dataset = [0], test_dataset = [4]\<rparr>) \<and>
   y_train [0, 1, 1, 1, 1] [1, 2, 3] = Inr [1, 1, 1] \<and>
   weight [1, 1, 1] = [1 / 3] \<and>
   balanced_sampler [0, 1, 1, 1, 1] [1, 2, 3] = Inl IndexError"
  by (simp add: balanced_sampler_def y_train_def samples_weight_def weight_def
      class_sample_count_def np_unique_def split_dataset_def random_split_def
      split_checked_def slices3 train_size_def val_size_def test_size_def)

text \<open>
  C5, as stated, fails: five images of classes 0, 0, 0, 1, 1 are split into the training
  subset 0, 1, 2, which has no image of class 1, and \<^verbatim>\<open>balanced_sampler\<close> returns a
  sampler without raising.
\<close>

theorem missing_class_not_detected:
  "split_dataset 5 [0, 1, 2, 3, 4] =
     Inr ([], \<lparr>train_dataset = [0, 1, 2], val_dataset = [3], test_dataset = [4]\<rparr>) \<and>
   y_train [0, 0, 0, 1, 1] [0, 1, 2] = Inr [0, 0, 0] \<and>
   count_list [0, 0, 0] (1::nat) = 0 \<and>
   balanced_sampler [0, 0, 0, 1, 1] [0, 1, 2] =
     Inr \<lparr>weights = [1 / 3, 1 / 3, 1 / 3], num_samples = 3, replacement = True\<rparr>"
  by (simp add: balanced_sampler_def y_train_def samples_weight_def weight_def
      class_sample_count_def np_unique_def weighted_random_sampler_def
      split_dataset_def random_split_def split_checked_def slices3 train_size_def
      val_size_def test_size_def)

text \<open>
  C5, amended. \<^verbatim>\<open>balanced_sampler\<close> counts only the classes that occur in the training
  subset, so every count it divides by is positive; and it does not look for dataset
  classes that the training subset lacks: when the labels that occur are exactly
  \<open>0, ..., k - 1\<close> it returns the sampler, with weight one over the class count for
  each example.
\<close>

theorem balanced_sampler_no_zero_count:
  assumes "y_train targets indices = Inr ys"
  shows "list_all (\<lambda>c. 0 < c) (class_sample_count ys) \<and>
         (ys \<noteq> [] \<and> set ys = {0..<k} \<longrightarrow>
            balanced_sampler targets indices =
              Inr \<lparr>weights = map (\<lambda>t. 1 / real (count_list ys t)) ys,
                   num_samples = length ys, replacement = True\<rparr>)"
  using balanced_sampler_contiguous[OF assms] class_sample_count_pos by blast

theorem balanced_sampler_no_zero_count_witness:
  "y_train [0, 0, 0, 1, 1] [0, 1, 2] = Inr [0, 0, 0] \<and>
   [0, 0, 0] \<noteq> ([]::nat list) \<and> set [0, 0, 0] = {0..<1::nat} \<and>
   list_all (\<lambda>c. 0 < c) (class_sample_count [0, 0, 0]) \<and>
   balanced_sampler [0, 0, 0, 1, 1] [0, 1, 2] =
     Inr \<lparr>weights = map (\<lambda>t. 1 / real (count_list [0, 0, 0 :: nat] t)) [0, 0, 0],
          num_samples = length [0, 0, 0 :: nat], replacement = True\<rparr>"
proof -
  have a: "y_train [0, 0, 0, 1, 1] [0, 1, 2] = Inr [0, 0, 0]"
    by (simp add: y_train_def)
  have b: "[0, 0, 0] \<noteq> ([]::nat list) \<and> set [0, 0, 0] = {0..<1::nat}"
    by auto
  from balanced_sampler_no_zero_count[OF a, of 1] a b show ?thesis by blast
qed

section \<open>Properties of the training loop\<close>

subsection \<open>The prediction rule\<close>

lemma is_first_max_iff:
  "is_first_max row i \<longleftrightarrow>
     i < length row \<and> (\<forall>j < length row. row ! j \<le> row ! i) \<and> (\<forall>j < i. row ! j < row ! i)"
  by (auto simp: is_first_max_def list_all_iff)

lemma argmax_from_inv:
  assumes "row = pre @ xs" and "bi < length pre" and "best = row ! bi"
    and "\<forall>j < length pre. row ! j \<le> best" and "\<forall>j < bi. row ! j < best"
  shows "is_first_max row (argmax_from best bi (length pre) xs)"
  using assms
proof (induction xs arbitrary: pre best bi)
  case Nil
  then show ?case by (simp add: is_first_max_iff)
next
  case (Cons x xs)
  have row: "row = (pre @ [x]) @ xs" using Cons.prems(1) by simp
  have x: "row ! length pre = x" using Cons.prems(1) by simp
  show ?case
  proof (cases "best < x")
    case True
    have "is_first_max row (argmax_from x (length pre) (length (pre @ [x])) xs)"
    proof (rule Cons.IH[OF row])
      show "length pre < length (pre @ [x])" by simp
      show "x = row ! length pre" using x by simp
      show "\<forall>j<length (pre @ [x]). row ! j \<le> x"
        using Cons.prems(4) True x by (auto simp: less_Suc_eq)
      show "\<forall>j<length pre. row ! j < x"
        using Cons.prems(4) True by force
    qed
    with True show ?thesis by simp
  next
    case False
    have "is_first_max row (argmax_from best bi (length (pre @ [x])) xs)"
    proof (rule Cons.IH[OF row])
      show "bi < length (pre @ [x])" using Cons.prems(2) by simp
      show "best = row ! bi" by (rule Cons.prems(3))
      show "\<forall>j<length (pre @ [x]). row ! j \<le> best"
        using Cons.prems(4) False x by (auto simp: less_Suc_eq)
      show "\<forall>j<bi. row ! j < best" by (rule Cons.prems(5))
    qed
    with False show ?thesis by simp
  qed
qed

lemma argmax_is_first_max: "row \<noteq> [] \<Longrightarrow> is_first_max row (argmax row)"
proof (cases row)
  case Nil
  assume "row \<noteq> []"
  with Nil show ?thesis by simp
next
  case (Cons x xs)
  have "is_first_max row (argmax_from x 0 (length [x]) xs)"
    by (rule argmax_from_inv) (simp_all add: Cons)
  then show ?thesis by (simp add: argmax_def Cons)
qed

lemma is_first_max_unique: "is_first_max row i \<Longrightarrow> is_first_max row j \<Longrightarrow> i = j"
  unfolding is_first_max_iff by (metis linorder_neqE_nat not_less)

lemma argmax_iff: "row \<noteq> [] \<Longrightarrow> argmax row = l \<longleftrightarrow> is_first_max row l"
  using argmax_is_first_max is_first_max_unique by blast

lemma corrects_eq:
  assumes "list_all (\<lambda>row. row \<noteq> []) outputs"
  shows "corrects (map argmax outputs) labels = correct_predictions outputs labels"
  using assms
proof (induction outputs arbitrary: labels)
  case Nil
  then show ?case by (simp add: corrects_def correct_predictions_def)
next
  case (Cons row outputs)
  show ?case
  proof (cases labels)
    case Nil
    then show ?thesis by (simp add: corrects_def correct_predictions_def)
  next
    case (Cons l ls)
    have ih: "corrects (map argmax outputs) ls = correct_predictions outputs ls"
      using Cons.IH Cons.prems by simp
    have row: "row \<noteq> []" using Cons.prems by simp
    have shift: "filter (\<lambda>i. is_first_max ((row # outputs) ! i) ((l # ls) ! i))
            [Suc 0..<Suc (min (length outputs) (length ls))]
          = map Suc (filter (\<lambda>i. is_first_max (outputs ! i) (ls ! i))
            [0..<min (length outputs) (length ls)])"
      by (simp add: map_Suc_upt[symmetric] filter_map comp_def del: upt_Suc)
    have "correct_predictions (row # outputs) (l # ls)
          = (if is_first_max row l then 1 else 0) + correct_predictions outputs ls"
      unfolding correct_predictions_def
      by (simp add: upt_conv_Cons shift del: upt_Suc)
    moreover have "corrects (map argmax (row # outputs)) (l # ls)
          = (if argmax row = l then 1 else 0) + corrects (map argmax outputs) ls"
      by (simp add: corrects_def)
    ultimately show ?thesis using ih argmax_iff[OF row] Cons by simp
  qed
qed

subsection \<open>One batch\<close>

lemma batch_step_eq:
  "batch_step E ph r b =
     \<lparr>state = after_batch E ph (state r) b,
      running_loss = running_loss r
        + criterion E (forward E (model (state r)) (map fst b)) (map snd b) * real (length b),
      running_corrects = running_corrects r
        + corrects (map argmax (forward E (model (state r)) (map fst b))) (map snd b)\<rparr>"
  by (simp add: batch_step_def after_batch_def Let_def emit_def)

lemma after_batch_Val:
  "\<not> training (model s) \<Longrightarrow>
     after_batch E Val s b = s\<lparr>log := log s @ [ZeroGrad, Forward False]\<rparr>"
  by (simp add: after_batch_def batch_step_def Let_def emit_def model_call_def)

lemma after_batch_Train:
  "log (after_batch E Train s b) = log s @ [ZeroGrad, Forward True, Backward, OptimStep]"
  "best_acc (after_batch E Train s b) = best_acc s"
  "best_model_params (after_batch E Train s b) = best_model_params s"
  "sched (after_batch E Train s b) = sched s"
  "lr (optimizer (after_batch E Train s b)) = lr (optimizer s)"
  "train_losses (after_batch E Train s b) = train_losses s"
  "val_losses (after_batch E Train s b) = val_losses s"
  by (simp_all add: after_batch_def batch_step_def Let_def emit_def backward_and_step_def)

subsection \<open>The batches of a phase\<close>

lemma foldl_batch_step_state:
  "state (foldl (batch_step E ph) r bs) = foldl (after_batch E ph) (state r) bs"
  by (induction bs arbitrary: r) (simp_all add: batch_step_eq)

lemma foldl_batch_step_loss:
  "running_loss (foldl (batch_step E ph) r bs) =
     running_loss r + accumulated_loss (batch_stats E ph (state r) bs)"
  by (induction bs arbitrary: r) (simp_all add: batch_step_eq accumulated_loss_def Let_def)

lemma foldl_batch_step_corrects:
  assumes "\<And>m xs. list_all (\<lambda>row. row \<noteq> []) (forward E m xs)"
  shows "running_corrects (foldl (batch_step E ph) r bs) =
     running_corrects r + accumulated_correct (batch_stats E ph (state r) bs)"
  by (induction bs arbitrary: r)
     (simp_all add: batch_step_eq accumulated_correct_def Let_def corrects_eq[OF assms])

lemma foldl_after_batch_Val:
  "\<not> training (model s) \<Longrightarrow>
     foldl (after_batch E Val) s bs =
       s\<lparr>log := log s @ concat (replicate (length bs) [ZeroGrad, Forward False])\<rparr>"
proof (induction bs arbitrary: s)
  case Nil
  then show ?case by simp
next
  case (Cons b bs)
  have "\<not> training (model (after_batch E Val s b))"
    using Cons.prems by (simp add: after_batch_Val)
  from Cons.IH[OF this] Cons.prems show ?case
    by (simp add: after_batch_Val)
qed

lemma foldl_after_batch_Train:
  "log (foldl (after_batch E Train) s bs) =
     log s @ concat (replicate (length bs) [ZeroGrad, Forward True, Backward, OptimStep])"
  "best_acc (foldl (after_batch E Train) s bs) = best_acc s"
  "best_model_params (foldl (after_batch E Train) s bs) = best_model_params s"
  "sched (foldl (after_batch E Train) s bs) = sched s"
  "lr (optimizer (foldl (after_batch E Train) s bs)) = lr (optimizer s)"
  "train_losses (foldl (after_batch E Train) s bs) = train_losses s"
  "val_losses (foldl (after_batch E Train) s bs) = val_losses s"
  by (induction bs arbitrary: s) (simp_all add: after_batch_Train)

subsection \<open>One phase\<close>

lemma run_phase_Inr:
  assumes "run_phase E bs n ph s = Inr (loss, acc, s')"
  shows "n \<noteq> 0" and "bs \<noteq> []"
    and "loss = running_loss (run_batches E ph (set_mode ph s) bs) / real n"
    and "acc = real (running_corrects (run_batches E ph (set_mode ph s) bs)) / real n"
  using assms by (auto simp: run_phase_def Let_def split: if_splits)

lemma run_phase_returns:
  assumes "n \<noteq> 0" and "bs \<noteq> []"
  shows "\<exists>s'. run_phase E bs n ph s =
           Inr (running_loss (run_batches E ph (set_mode ph s) bs) / real n,
                real (running_corrects (run_batches E ph (set_mode ph s) bs)) / real n, s')"
  using assms by (simp add: run_phase_def Let_def)

lemma run_phase_Val:
  assumes "run_phase E bs n Val s = Inr (loss, acc, s')"
  shows "s' = checkpoint Val acc
           (s\<lparr>model := (model s)\<lparr>training := False\<rparr>,
              log := log s @ concat (replicate (length bs) [ZeroGrad, Forward False]),
              val_losses := val_losses s @ [loss]\<rparr>)"
proof -
  have "state (run_batches E Val (set_mode Val s) bs) =
      (set_mode Val s)\<lparr>log := log s @ concat (replicate (length bs) [ZeroGrad, Forward False])\<rparr>"
    by (simp add: run_batches_def foldl_batch_step_state foldl_after_batch_Val set_mode_def)
  with assms show ?thesis
    by (auto simp: run_phase_def Let_def set_mode_def split: if_splits)
qed

lemma checkpoint_Train [simp]: "checkpoint Train acc s = s"
  by (simp add: checkpoint_def)

lemma run_phase_Train:
  assumes "run_phase E bs n Train s = Inr (loss, acc, s')"
  shows "best_acc s' = best_acc s"
    and "best_model_params s' = best_model_params s"
    and "val_losses s' = val_losses s"
    and "train_losses s' = train_losses s @ [loss]"
    and "log s' = log s
           @ concat (replicate (length bs) [ZeroGrad, Forward True, Backward, OptimStep])
           @ [SchedulerStep]"
    and "sched s' = (sched s)\<lparr>last_epoch := last_epoch (sched s) + 1\<rparr>"
    and "lr (optimizer s') =
           (if (last_epoch (sched s) + 1) mod step_size (sched s) \<noteq> 0
            then lr (optimizer s) else lr (optimizer s) * gamma (sched s))"
proof -
  let ?t = "foldl (after_batch E Train) (set_mode Train s) bs"
  have st: "state (run_batches E Train (set_mode Train s) bs) = ?t"
    by (simp add: run_batches_def foldl_batch_step_state)
  have s': "s' = (step_scheduler ?t)\<lparr>train_losses := train_losses (step_scheduler ?t) @ [loss]\<rparr>"
    using assms st by (auto simp: run_phase_def Let_def split: if_splits)
  show "best_acc s' = best_acc s"
    by (simp add: s' step_scheduler_def Let_def emit_def foldl_after_batch_Train set_mode_def)
  show "best_model_params s' = best_model_params s"
    by (simp add: s' step_scheduler_def Let_def emit_def foldl_after_batch_Train set_mode_def)
  show "val_losses s' = val_losses s"
    by (simp add: s' step_scheduler_def Let_def emit_def foldl_after_batch_Train set_mode_def)
  show "train_losses s' = train_losses s @ [loss]"
    by (simp add: s' step_scheduler_def Let_def emit_def foldl_after_batch_Train set_mode_def)
  show "log s' = log s
           @ concat (replicate (length bs) [ZeroGrad, Forward True, Backward, OptimStep])
           @ [SchedulerStep]"
    by (simp add: s' step_scheduler_def Let_def emit_def foldl_after_batch_Train set_mode_def)
  show "sched s' = (sched s)\<lparr>last_epoch := last_epoch (sched s) + 1\<rparr>"
    by (simp add: s' step_scheduler_def scheduler_step_def Let_def emit_def
        foldl_after_batch_Train set_mode_def)
  show "lr (optimizer s') =
           (if (last_epoch (sched s) + 1) mod step_size (sched s) \<noteq> 0
            then lr (optimizer s) else lr (optimizer s) * gamma (sched s))"
    by (simp add: s' step_scheduler_def scheduler_step_def Let_def emit_def
        foldl_after_batch_Train set_mode_def)
qed

lemma run_phase_Val_fields:
  assumes "run_phase E bs n Val s = Inr (loss, acc, s')"
  shows "state_dict (model s') = state_dict (model s)"
    and "optimizer s' = optimizer s"
    and "sched s' = sched s"
    and "train_losses s' = train_losses s"
    and "val_losses s' = val_losses s @ [loss]"
    and "log s' = log s @ concat (replicate (length bs) [ZeroGrad, Forward False])
           @ (if best_acc s < acc then [Save] else [])"
    and "best_acc s' = (if best_acc s < acc then acc else best_acc s)"
    and "best_model_params s' =
           (if best_acc s < acc then state_dict (model s') else best_model_params s)"
  unfolding run_phase_Val[OF assms]
  by (simp_all add: checkpoint_def emit_def state_dict_def)

lemma epoch_Inr:
  assumes "epoch E L sizes e s = Inr s2"
  obtains l1 a1 s1 l2 a2 where
    "run_phase E (L e Train) (sizes Train) Train s = Inr (l1, a1, s1)"
    "run_phase E (L e Val) (sizes Val) Val s1 = Inr (l2, a2, s2)"
  using assms unfolding epoch_def
  by (auto split: sum.splits)

lemma epoch_best_acc_mono:
  assumes "epoch E L sizes e s = Inr s2"
  shows "best_acc s \<le> best_acc s2"
proof -
  from assms obtain l1 a1 s1 l2 a2 where
    t: "run_phase E (L e Train) (sizes Train) Train s = Inr (l1, a1, s1)" and
    v: "run_phase E (L e Val) (sizes Val) Val s1 = Inr (l2, a2, s2)"
    by (rule epoch_Inr)
  have "best_acc s1 = best_acc s" by (rule run_phase_Train(1)[OF t])
  moreover have "best_acc s1 \<le> best_acc s2"
    by (simp add: run_phase_Val_fields(7)[OF v])
  ultimately show ?thesis by simp
qed

lemma run_epochs_append:
  "run_epochs E L sizes s (es @ fs) =
     (case run_epochs E L sizes s es of
        Inl err \<Rightarrow> Inl err
      | Inr s' \<Rightarrow> run_epochs E L sizes s' fs)"
  by (induction es arbitrary: s) (simp_all split: sum.splits)

lemma run_epochs_best_acc_mono:
  "run_epochs E L sizes s es = Inr s' \<Longrightarrow> best_acc s \<le> best_acc s'"
proof (induction es arbitrary: s)
  case Nil
  then show ?case by simp
next
  case (Cons e es)
  then obtain s1 where e: "epoch E L sizes e s = Inr s1"
    and r: "run_epochs E L sizes s1 es = Inr s'"
    by (auto split: sum.splits)
  from epoch_best_acc_mono[OF e] Cons.IH[OF r] show ?case by simp
qed

text \<open>
  C2. A phase over a non-empty list of batches, with a positive size stored for its
  subset, returns as its loss the sum over the batches of batch loss times batch size,
  and as its accuracy the sum of the correct predictions of the batches, each divided by
  the stored size (with no batch, or a stored size of 0, the phase raises instead). A
  prediction is correct when the label is the first index at which the score vector is
  maximal, which is the index that \<open>argmax\<close> returns.
\<close>

theorem epoch_statistics:
  assumes "0 < n" and "batches \<noteq> []"
    and "\<And>m xs. list_all (\<lambda>row. row \<noteq> []) (forward E m xs)"
  shows "(\<exists>s'. run_phase E batches n ph s =
           Inr (accumulated_loss (batch_stats E ph (set_mode ph s) batches) / real n,
                real (accumulated_correct (batch_stats E ph (set_mode ph s) batches)) / real n,
                s')) \<and>
         (\<forall>row i. row \<noteq> [] \<longrightarrow> (argmax row = i) = is_first_max row i)"
proof -
  have "running_loss (run_batches E ph (set_mode ph s) batches) =
          accumulated_loss (batch_stats E ph (set_mode ph s) batches)"
    by (simp add: run_batches_def foldl_batch_step_loss)
  moreover have "running_corrects (run_batches E ph (set_mode ph s) batches) =
          accumulated_correct (batch_stats E ph (set_mode ph s) batches)"
    by (simp add: run_batches_def foldl_batch_step_corrects[OF assms(3)])
  ultimately have "\<exists>s'. run_phase E batches n ph s =
           Inr (accumulated_loss (batch_stats E ph (set_mode ph s) batches) / real n,
                real (accumulated_correct (batch_stats E ph (set_mode ph s) batches)) / real n,
                s')"
    using run_phase_returns[of n batches E ph s] assms(1,2) by simp
  then show ?thesis using argmax_iff by blast
qed

theorem epoch_statistics_witness:
  "(0::nat) < 3 \<and> [[(1, 1), (2, 0)], [(- 1, 0 :: nat)]] \<noteq> ([] :: (real \<times> nat) list list) \<and>
   batch_stats toy Train
     (set_mode Train (initial_run (toy_model\<lparr>fc := 1\<rparr>) (SGD (1 / 2)) (StepLR 7 (1 / 10))))
     [[(1, 1), (2, 0)], [(- 1, 0)]] = [(1, 2, 1), (0, 1, 1)] \<and>
   (\<exists>s'. run_phase toy [[(1, 1), (2, 0)], [(- 1, 0)]] 3 Train
      (initial_run (toy_model\<lparr>fc := 1\<rparr>) (SGD (1 / 2)) (StepLR 7 (1 / 10))) =
        Inr (2 / 3, 2 / 3, s')) \<and>
   argmax [0, 1] = 1 \<and> is_first_max [0, 1] 1 \<and> argmax [1, 1] = 0 \<and> is_first_max [1, 1] 0"
proof -
  have a: "(0::nat) < 3" by simp
  have b: "[[(1, 1), (2, 0)], [(- 1, 0 :: nat)]] \<noteq> ([] :: (real \<times> nat) list list)" by simp
  have c: "list_all (\<lambda>row. row \<noteq> []) (forward toy m xs)" for m xs
    by (simp add: toy_def list_all_iff)
  have d: "batch_stats toy Train
     (set_mode Train (initial_run (toy_model\<lparr>fc := 1\<rparr>) (SGD (1 / 2)) (StepLR 7 (1 / 10))))
     [[(1, 1), (2, 0)], [(- 1, 0)]] = [(1, 2, 1), (0, 1, 1)]"
    by code_simp
  note inst = epoch_statistics[OF a b c, of Train
      "initial_run (toy_model\<lparr>fc := 1\<rparr>) (SGD (1 / 2)) (StepLR 7 (1 / 10))"]
  from inst have e: "\<exists>s'. run_phase toy [[(1, 1), (2, 0)], [(- 1, 0)]] 3 Train
      (initial_run (toy_model\<lparr>fc := 1\<rparr>) (SGD (1 / 2)) (StepLR 7 (1 / 10))) =
        Inr (2 / 3, 2 / 3, s')"
    unfolding d by (simp add: accumulated_loss_def accumulated_correct_def)
  have f: "argmax [0, 1] = 1" "argmax [1, 1] = 0" by code_simp+
  from inst have "\<forall>row i. row \<noteq> [] \<longrightarrow> (argmax row = i) = is_first_max row i" by blast
  with f have g: "is_first_max [0, 1] 1" "is_first_max [1, 1] 0" by auto
  from a b d e f g show ?thesis by simp
qed

lemma count_Save_val: "count_list (concat (replicate k [ZeroGrad, Forward False])) Save = 0"
  by (induction k) simp_all

lemma count_Save_train:
  "count_list (concat (replicate k [ZeroGrad, Forward True, Backward, OptimStep])) Save = 0"
  by (induction k) simp_all

lemma train_model_Inr:
  assumes "train_model E L sizes m opt sch num_epochs = Inr r"
  obtains s where "run_epochs E L sizes (initial_run m opt sch) [0..<num_epochs] = Inr s"
    and "r = restore s"
  using assms unfolding train_model_def by (auto split: sum.splits)

lemma restore_fields:
  "state_dict (model (restore s)) = best_model_params s"
  "best_model_params (restore s) = best_model_params s"
  "best_acc (restore s) = best_acc s"
  "optimizer (restore s) = optimizer s"
  "sched (restore s) = sched s"
  "log (restore s) = log s @ [Load]"
  by (simp_all add: restore_def emit_def load_state_dict_def state_dict_def)

text \<open>
  C3. A phase writes the checkpoint file, and sets \<open>best_acc\<close>, exactly when it is a
  validation phase whose accuracy is strictly greater than \<open>best_acc\<close>: it then stores the
  current parameters and the new accuracy; otherwise file and \<open>best_acc\<close> are unchanged.
  When \<^verbatim>\<open>train_model\<close> returns, the parameters of the model are those of the file,
  whatever the last epoch left.
\<close>

theorem checkpoint_rule:
  "(run_phase E bs n ph s = Inr (loss, acc, s') \<longrightarrow>
      (if ph = Val \<and> best_acc s < acc
       then best_acc s' = acc \<and> best_model_params s' = state_dict (model s') \<and>
            count_list (log s') Save = Suc (count_list (log s) Save)
       else best_acc s' = best_acc s \<and> best_model_params s' = best_model_params s \<and>
            count_list (log s') Save = count_list (log s) Save)) \<and>
   (train_model E L sizes m opt sch num_epochs = Inr r \<longrightarrow>
      (\<exists>s. run_epochs E L sizes (initial_run m opt sch) [0..<num_epochs] = Inr s \<and>
           model r = load_state_dict (model s) (best_model_params s) \<and>
           best_model_params r = best_model_params s \<and> best_acc r = best_acc s) \<and>
      state_dict (model r) = best_model_params r)"
proof (intro conjI impI)
  assume run: "run_phase E bs n ph s = Inr (loss, acc, s')"
  show "if ph = Val \<and> best_acc s < acc
       then best_acc s' = acc \<and> best_model_params s' = state_dict (model s') \<and>
            count_list (log s') Save = Suc (count_list (log s) Save)
       else best_acc s' = best_acc s \<and> best_model_params s' = best_model_params s \<and>
            count_list (log s') Save = count_list (log s) Save"
  proof (cases ph)
    case Train
    with run have t: "run_phase E bs n Train s = Inr (loss, acc, s')" by simp
    show ?thesis
      using Train run_phase_Train(1,2,5)[OF t] by (simp add: count_Save_train)
  next
    case Val
    with run have v: "run_phase E bs n Val s = Inr (loss, acc, s')" by simp
    show ?thesis
      using Val run_phase_Val_fields(6,7,8)[OF v] by (simp add: count_Save_val)
  qed
next
  assume "train_model E L sizes m opt sch num_epochs = Inr r"
  then obtain s where s: "run_epochs E L sizes (initial_run m opt sch) [0..<num_epochs] = Inr s"
    and r: "r = restore s"
    by (rule train_model_Inr)
  show "\<exists>s. run_epochs E L sizes (initial_run m opt sch) [0..<num_epochs] = Inr s \<and>
           model r = load_state_dict (model s) (best_model_params s) \<and>
           best_model_params r = best_model_params s \<and> best_acc r = best_acc s"
    using s r by (auto simp: restore_def emit_def)
  show "state_dict (model r) = best_model_params r"
    using r by (simp add: restore_fields)
qed

theorem checkpoint_rule_witness:
  "(\<exists>s'. run_phase toy (toy_loaders 0 Val) 2 Val (toy_start\<lparr>model := toy_model\<lparr>fc := 1\<rparr>\<rparr>)
           = Inr (0, 1, s') \<and>
         best_acc (toy_start\<lparr>model := toy_model\<lparr>fc := 1\<rparr>\<rparr>) < 1 \<and>
         best_acc s' = 1 \<and> best_model_params s' = state_dict (model s') \<and>
         count_list (log s') Save =
           Suc (count_list (log (toy_start\<lparr>model := toy_model\<lparr>fc := 1\<rparr>\<rparr>)) Save)) \<and>
   (\<exists>r s. train_model toy toy_loaders toy_sizes toy_model (SGD (1 / 2)) (StepLR 7 (1 / 10)) 3
           = Inr r \<and>
         run_epochs toy toy_loaders toy_sizes
           (initial_run toy_model (SGD (1 / 2)) (StepLR 7 (1 / 10))) [0..<3] = Inr s \<and>
         state_dict (model s) = (6, 2) \<and> best_model_params s = (4, 1) \<and>
         state_dict (model r) = best_model_params r \<and> state_dict (model r) = (4, 1))"
proof -
  let ?s = "toy_start\<lparr>model := toy_model\<lparr>fc := 1\<rparr>\<rparr>"
  let ?s' = "\<lparr>model = \<lparr>backbone = 0, fc = 1, training = False\<rparr>,
         optimizer = \<lparr>lr = 1 / 2, momentum_buffer = None\<rparr>,
         sched = \<lparr>step_size = 7, gamma = 1 / 10, last_epoch = 0\<rparr>,
         best_model_params = (0, 1), best_acc = 1, train_losses = [],
         val_losses = [0],
         log = [Save, ZeroGrad, Forward False, ZeroGrad, Forward False, Save]\<rparr>
         :: (nat, real, real) run"
  let ?r = "\<lparr>model = \<lparr>backbone = 4, fc = 1, training = False\<rparr>,
        optimizer = \<lparr>lr = 1 / 2, momentum_buffer = Some (- 1)\<rparr>,
        sched = \<lparr>step_size = 7, gamma = 1 / 10, last_epoch = 3\<rparr>,
        best_model_params = (4, 1), best_acc = 1,
        train_losses = [5 / 3, 4 / 3, 0], val_losses = [1 / 2, 0, 0],
        log =
          [Save, ZeroGrad, Forward True, Backward, OptimStep, ZeroGrad,
           Forward True, Backward, OptimStep, SchedulerStep, ZeroGrad,
           Forward False, ZeroGrad, Forward False, Save, ZeroGrad,
           Forward True, Backward, OptimStep, ZeroGrad, Forward True,
           Backward, OptimStep, SchedulerStep, ZeroGrad, Forward False,
           ZeroGrad, Forward False, Save, ZeroGrad, Forward True, Backward,
           OptimStep, ZeroGrad, Forward True, Backward, OptimStep,
           SchedulerStep, ZeroGrad, Forward False, ZeroGrad, Forward False,
           Load]\<rparr> :: (nat, real, real) run"
  have a: "run_phase toy (toy_loaders 0 Val) 2 Val ?s = Inr (0, 1, ?s')"
    by code_simp
  have b: "best_acc ?s < 1"
    by (simp add: toy_start_def initial_run_def)
  have c: "train_model toy toy_loaders toy_sizes toy_model (SGD (1 / 2)) (StepLR 7 (1 / 10)) 3
           = Inr ?r"
    by code_simp
  note rule = checkpoint_rule[of toy "toy_loaders 0 Val" 2 Val ?s 0 1 ?s'
      toy_loaders toy_sizes toy_model "SGD (1 / 2)" "StepLR 7 (1 / 10)" 3 ?r]
  from rule a b have first: "best_acc ?s' = 1 \<and> best_model_params ?s' = state_dict (model ?s') \<and>
         count_list (log ?s') Save = Suc (count_list (log ?s) Save)"
    by simp
  from rule c obtain s where
    s: "run_epochs toy toy_loaders toy_sizes
           (initial_run toy_model (SGD (1 / 2)) (StepLR 7 (1 / 10))) [0..<3] = Inr s"
    and r: "state_dict (model ?r) = best_model_params ?r"
    by blast
  have s3: "run_epochs toy toy_loaders toy_sizes
           (initial_run toy_model (SGD (1 / 2)) (StepLR 7 (1 / 10))) [0..<3] =
      Inr (?r\<lparr>model := \<lparr>backbone = 6, fc = 2, training = False\<rparr>, log := butlast (log ?r)\<rparr>)"
    by code_simp
  have second: "\<exists>r s. train_model toy toy_loaders toy_sizes toy_model (SGD (1 / 2)) (StepLR 7 (1 / 10)) 3
           = Inr r \<and>
         run_epochs toy toy_loaders toy_sizes
           (initial_run toy_model (SGD (1 / 2)) (StepLR 7 (1 / 10))) [0..<3] = Inr s \<and>
         state_dict (model s) = (6, 2) \<and> best_model_params s = (4, 1) \<and>
         state_dict (model r) = best_model_params r \<and> state_dict (model r) = (4, 1)"
    apply (rule exI[of _ ?r])
    apply (rule exI[of _ "?r\<lparr>model := \<lparr>backbone = 6, fc = 2, training = False\<rparr>, log := butlast (log ?r)\<rparr>"])
    using c s3 r by (simp add: state_dict_def)
  from a b first second show ?thesis by blast
qed

text \<open>
  C6. In evaluation mode a batch changes nothing but the log, to which it adds the
  clearing of the gradients and a forward pass without gradient tracking. So a validation
  phase leaves parameters and optimizer as they were and makes no backward pass and no
  optimizer step; and the parameters at the end of an epoch are those its training phase
  left.
\<close>

theorem evaluate_mode_frame:
  "(\<not> training (model s) \<longrightarrow>
      after_batch E Val s b = s\<lparr>log := log s @ [ZeroGrad, Forward False]\<rparr>) \<and>
   (run_phase E bs n Val s = Inr (loss, acc, s') \<longrightarrow>
      state_dict (model s') = state_dict (model s) \<and> optimizer s' = optimizer s \<and>
      log s' = log s @ concat (replicate (length bs) [ZeroGrad, Forward False])
                 @ (if best_acc s < acc then [Save] else [])) \<and>
   (epoch E L sizes e s = Inr s2 \<longrightarrow>
      (\<exists>l a s1. run_phase E (L e Train) (sizes Train) Train s = Inr (l, a, s1) \<and>
         state_dict (model s2) = state_dict (model s1)))"
proof (intro conjI impI)
  assume "\<not> training (model s)"
  then show "after_batch E Val s b = s\<lparr>log := log s @ [ZeroGrad, Forward False]\<rparr>"
    by (rule after_batch_Val)
next
  assume v: "run_phase E bs n Val s = Inr (loss, acc, s')"
  show "state_dict (model s') = state_dict (model s)" by (rule run_phase_Val_fields(1)[OF v])
  show "optimizer s' = optimizer s" by (rule run_phase_Val_fields(2)[OF v])
  show "log s' = log s @ concat (replicate (length bs) [ZeroGrad, Forward False])
                 @ (if best_acc s < acc then [Save] else [])"
    by (rule run_phase_Val_fields(6)[OF v])
next
  assume "epoch E L sizes e s = Inr s2"
  then obtain l1 a1 s1 l2 a2 where
    t: "run_phase E (L e Train) (sizes Train) Train s = Inr (l1, a1, s1)" and
    v: "run_phase E (L e Val) (sizes Val) Val s1 = Inr (l2, a2, s2)"
    by (rule epoch_Inr)
  from t run_phase_Val_fields(1)[OF v]
  show "\<exists>l a s1. run_phase E (L e Train) (sizes Train) Train s = Inr (l, a, s1) \<and>
         state_dict (model s2) = state_dict (model s1)"
    by blast
qed

theorem evaluate_mode_frame_witness:
  "\<not> training (model toy_start) \<and>
   after_batch toy Val toy_start [(1, 1)] =
     toy_start\<lparr>log := log toy_start @ [ZeroGrad, Forward False]\<rparr> \<and>
   (\<exists>s'. run_phase toy (toy_loaders 0 Val) 2 Val toy_start = Inr (1, 0, s') \<and>
      state_dict (model s') = state_dict (model toy_start) \<and>
      optimizer s' = optimizer toy_start \<and>
      log s' = log toy_start @ [ZeroGrad, Forward False, ZeroGrad, Forward False]) \<and>
   (\<exists>s1 s2. epoch toy toy_loaders toy_sizes 0 toy_start = Inr s2 \<and>
      run_phase toy (toy_loaders 0 Train) (toy_sizes Train) Train toy_start = Inr (5 / 3, 0, s1) \<and>
      state_dict (model s1) = (2, 0) \<and> state_dict (model s2) = (2, 0))"
proof -
  let ?v = "\<lparr>model = \<lparr>backbone = 0, fc = - 1, training = False\<rparr>,
         optimizer = \<lparr>lr = 1 / 2, momentum_buffer = None\<rparr>,
         sched = \<lparr>step_size = 7, gamma = 1 / 10, last_epoch = 0\<rparr>,
         best_model_params = (0, - 1), best_acc = 0, train_losses = [],
         val_losses = [1],
         log = [Save, ZeroGrad, Forward False, ZeroGrad, Forward False]\<rparr>
         :: (nat, real, real) run"
  let ?s1 = "\<lparr>model = \<lparr>backbone = 2, fc = 0, training = True\<rparr>,
         optimizer = \<lparr>lr = 1 / 2, momentum_buffer = Some (- 1)\<rparr>,
         sched = \<lparr>step_size = 7, gamma = 1 / 10, last_epoch = 1\<rparr>,
         best_model_params = (0, - 1), best_acc = 0, train_losses = [5 / 3],
         val_losses = [],
         log =
           [Save, ZeroGrad, Forward True, Backward, OptimStep, ZeroGrad,
            Forward True, Backward, OptimStep, SchedulerStep]\<rparr>
         :: (nat, real, real) run"
  let ?s2 = "\<lparr>model = \<lparr>backbone = 2, fc = 0, training = False\<rparr>,
        optimizer = \<lparr>lr = 1 / 2, momentum_buffer = Some (- 1)\<rparr>,
        sched = \<lparr>step_size = 7, gamma = 1 / 10, last_epoch = 1\<rparr>,
        best_model_params = (2, 0), best_acc = 1 / 2,
        train_losses = [5 / 3], val_losses = [1 / 2],
        log =
          [Save, ZeroGrad, Forward True, Backward, OptimStep, ZeroGrad,
           Forward True, Backward, OptimStep, SchedulerStep, ZeroGrad,
           Forward False, ZeroGrad, Forward False, Save]\<rparr>
         :: (nat, real, real) run"
  have a: "\<not> training (model toy_start)"
    by (simp add: toy_start_def initial_run_def toy_model_def)
  have b: "run_phase toy (toy_loaders 0 Val) 2 Val toy_start = Inr (1, 0, ?v)"
    by code_simp
  have c: "epoch toy toy_loaders toy_sizes 0 toy_start = Inr ?s2"
    by code_simp
  have d: "run_phase toy (toy_loaders 0 Train) (toy_sizes Train) Train toy_start
             = Inr (5 / 3, 0, ?s1)"
    by code_simp
  have best: "\<not> best_acc toy_start < 0" "length (toy_loaders 0 Val) = 2"
    "log toy_start = [Save]"
    by (simp_all add: toy_start_def initial_run_def toy_loaders_def)
  note frame = evaluate_mode_frame[of toy_start toy "[(1, 1)]" "toy_loaders 0 Val" 2 1 0 ?v
      toy_loaders toy_sizes 0 ?s2]
  from frame a have first: "after_batch toy Val toy_start [(1, 1)] =
     toy_start\<lparr>log := log toy_start @ [ZeroGrad, Forward False]\<rparr>"
    by blast
  from frame b have "state_dict (model ?v) = state_dict (model toy_start) \<and>
      optimizer ?v = optimizer toy_start \<and>
      log ?v = log toy_start @ concat (replicate (length (toy_loaders 0 Val)) [ZeroGrad, Forward False])
                 @ (if best_acc toy_start < 0 then [Save] else [])"
    by blast
  with b best have second:
    "\<exists>s'. run_phase toy (toy_loaders 0 Val) 2 Val toy_start = Inr (1, 0, s') \<and>
      state_dict (model s') = state_dict (model toy_start) \<and>
      optimizer s' = optimizer toy_start \<and>
      log s' = log toy_start @ [ZeroGrad, Forward False, ZeroGrad, Forward False]"
    by (intro exI[of _ ?v]) simp
  from frame c obtain l a' s1 where
    t: "run_phase toy (toy_loaders 0 Train) (toy_sizes Train) Train toy_start = Inr (l, a', s1)"
    and eq: "state_dict (model ?s2) = state_dict (model s1)"
    by blast
  from t d have "s1 = ?s1" by simp
  with c d eq have third:
    "\<exists>s1 s2. epoch toy toy_loaders toy_sizes 0 toy_start = Inr s2 \<and>
      run_phase toy (toy_loaders 0 Train) (toy_sizes Train) Train toy_start = Inr (5 / 3, 0, s1) \<and>
      state_dict (model s1) = (2, 0) \<and> state_dict (model s2) = (2, 0)"
    by (intro exI[of _ ?s1] exI[of _ ?s2]) (simp add: state_dict_def)
  from a first second third show ?thesis by blast
qed

text \<open>
  C7. Within one run, \<open>best_acc\<close> after \<open>i\<close> epochs is at most \<open>best_acc\<close> after
  \<open>j\<close> epochs whenever \<open>i \<le> j\<close>.
\<close>

theorem best_acc_non_decreasing:
  assumes "i \<le> j"
    and "run_epochs E L sizes (initial_run m opt sch) [0..<i] = Inr si"
    and "run_epochs E L sizes (initial_run m opt sch) [0..<j] = Inr sj"
  shows "best_acc si \<le> best_acc sj"
proof -
  from assms(1) have "[0..<j] = [0..<i] @ [i..<j]"
    by (metis le_add_diff_inverse upt_add_eq_append zero_le)
  with assms(2,3) have "run_epochs E L sizes si [i..<j] = Inr sj"
    by (simp add: run_epochs_append)
  then show ?thesis by (rule run_epochs_best_acc_mono)
qed

theorem best_acc_non_decreasing_witness:
  "(1::nat) \<le> 3 \<and>
   (\<exists>s1 s3.
      run_epochs toy toy_loaders toy_sizes
        (initial_run toy_model (SGD (1 / 2)) (StepLR 7 (1 / 10))) [0..<1] = Inr s1 \<and>
      run_epochs toy toy_loaders toy_sizes
        (initial_run toy_model (SGD (1 / 2)) (StepLR 7 (1 / 10))) [0..<3] = Inr s3 \<and>
      best_acc s1 = 1 / 2 \<and> best_acc s3 = 1 \<and> best_acc s1 \<le> best_acc s3)"
proof -
  let ?s1 = "\<lparr>model = \<lparr>backbone = 2, fc = 0, training = False\<rparr>,
        optimizer = \<lparr>lr = 1 / 2, momentum_buffer = Some (- 1)\<rparr>,
        sched = \<lparr>step_size = 7, gamma = 1 / 10, last_epoch = 1\<rparr>,
        best_model_params = (2, 0), best_acc = 1 / 2,
        train_losses = [5 / 3], val_losses = [1 / 2],
        log =
          [Save, ZeroGrad, Forward True, Backward, OptimStep, ZeroGrad,
           Forward True, Backward, OptimStep, SchedulerStep, ZeroGrad,
           Forward False, ZeroGrad, Forward False, Save]\<rparr>
         :: (nat, real, real) run"
  let ?s3 = "\<lparr>model = \<lparr>backbone = 6, fc = 2, training = False\<rparr>,
        optimizer = \<lparr>lr = 1 / 2, momentum_buffer = Some (- 1)\<rparr>,
        sched = \<lparr>step_size = 7, gamma = 1 / 10, last_epoch = 3\<rparr>,
        best_model_params = (4, 1), best_acc = 1,
        train_losses = [5 / 3, 4 / 3, 0], val_losses = [1 / 2, 0, 0],
        log =
          [Save, ZeroGrad, Forward True, Backward, OptimStep, ZeroGrad,
           Forward True, Backward, OptimStep, SchedulerStep, ZeroGrad,
           Forward False, ZeroGrad, Forward False, Save, ZeroGrad,
           Forward True, Backward, OptimStep, ZeroGrad, Forward True,
           Backward, OptimStep, SchedulerStep, ZeroGrad, Forward False,
           ZeroGrad, Forward False, Save, ZeroGrad, Forward True, Backward,
           OptimStep, ZeroGrad, Forward True, Backward, OptimStep,
           SchedulerStep, ZeroGrad, Forward False, ZeroGrad,
           Forward False]\<rparr>
         :: (nat, real, real) run"
  have a: "(1::nat) \<le> 3" by simp
  have b: "run_epochs toy toy_loaders toy_sizes
        (initial_run toy_model (SGD (1 / 2)) (StepLR 7 (1 / 10))) [0..<1] = Inr ?s1"
    by code_simp
  have c: "run_epochs toy toy_loaders toy_sizes
        (initial_run toy_model (SGD (1 / 2)) (StepLR 7 (1 / 10))) [0..<3] = Inr ?s3"
    by code_simp
  from best_acc_non_decreasing[OF a b c] have "best_acc ?s1 \<le> best_acc ?s3" .
  with a b c show ?thesis
    by (intro conjI exI[of _ ?s1] exI[of _ ?s3]) simp_all
qed

section \<open>Properties of the sweep\<close>

lemma epoch_schedule:
  assumes "epoch E L sizes e s = Inr s2"
  shows "sched s2 = (sched s)\<lparr>last_epoch := last_epoch (sched s) + 1\<rparr>"
    and "lr (optimizer s2) =
           (if (last_epoch (sched s) + 1) mod step_size (sched s) \<noteq> 0
            then lr (optimizer s) else lr (optimizer s) * gamma (sched s))"
proof -
  from assms obtain l1 a1 s1 l2 a2 where
    t: "run_phase E (L e Train) (sizes Train) Train s = Inr (l1, a1, s1)" and
    v: "run_phase E (L e Val) (sizes Val) Val s1 = Inr (l2, a2, s2)"
    by (rule epoch_Inr)
  show "sched s2 = (sched s)\<lparr>last_epoch := last_epoch (sched s) + 1\<rparr>"
    using run_phase_Train(6)[OF t] run_phase_Val_fields(3)[OF v] by simp
  show "lr (optimizer s2) =
           (if (last_epoch (sched s) + 1) mod step_size (sched s) \<noteq> 0
            then lr (optimizer s) else lr (optimizer s) * gamma (sched s))"
    using run_phase_Train(7)[OF t] run_phase_Val_fields(2)[OF v] by simp
qed

lemma run_epochs_schedule:
  assumes "run_epochs E L sizes s es = Inr s'"
    and "step_size (sched s) = 7" and "gamma (sched s) = 1 / 10"
    and "lr (optimizer s) = rate * (1 / 10) ^ (last_epoch (sched s) div 7)"
  shows "sched s' = (sched s)\<lparr>last_epoch := last_epoch (sched s) + length es\<rparr> \<and>
         lr (optimizer s') = rate * (1 / 10) ^ ((last_epoch (sched s) + length es) div 7)"
  using assms
proof (induction es arbitrary: s)
  case Nil
  then show ?case by simp
next
  case (Cons e es)
  from Cons.prems(1) obtain s1 where e: "epoch E L sizes e s = Inr s1"
    and r: "run_epochs E L sizes s1 es = Inr s'"
    by (auto split: sum.splits)
  have sch: "sched s1 = (sched s)\<lparr>last_epoch := Suc (last_epoch (sched s))\<rparr>"
    using epoch_schedule(1)[OF e] by simp
  have "lr (optimizer s1) = rate * (1 / 10) ^ (Suc (last_epoch (sched s)) div 7)"
  proof (cases "Suc (last_epoch (sched s)) mod 7 = 0")
    case True
    then have d: "Suc (last_epoch (sched s)) div 7 = Suc (last_epoch (sched s) div 7)"
      by presburger
    from True epoch_schedule(2)[OF e] Cons.prems(2,3)
    have "lr (optimizer s1) = lr (optimizer s) * (1 / 10)" by simp
    with Cons.prems(4) show ?thesis unfolding d by simp
  next
    case False
    then have d: "Suc (last_epoch (sched s)) div 7 = last_epoch (sched s) div 7"
      by presburger
    from False epoch_schedule(2)[OF e] Cons.prems(2)
    have "lr (optimizer s1) = lr (optimizer s)" by simp
    with Cons.prems(4) show ?thesis unfolding d by simp
  qed
  then have "sched s' = (sched s1)\<lparr>last_epoch := last_epoch (sched s1) + length es\<rparr> \<and>
         lr (optimizer s') = rate * (1 / 10) ^ ((last_epoch (sched s1) + length es) div 7)"
    using Cons.IH[OF r] sch Cons.prems(2,3) by simp
  then show ?case using sch by simp
qed

lemma fresh_run_schedule:
  assumes "run_epochs E L sizes (initial_run m (SGD rate) (StepLR 7 (1 / 10))) [0..<e] = Inr s"
  shows "lr (optimizer s) = rate * (1 / 10) ^ (e div 7)" and "last_epoch (sched s) = e"
  using run_epochs_schedule[OF assms, of rate]
  by (simp_all add: initial_run_def SGD_def StepLR_def)

lemma sweep_runs:
  assumes "sweep E L sizes n k m rates = Inr (rs, m')"
  shows "length rs = length rates \<and> m' = last (m # map model rs) \<and>
         (\<forall>i<length rates.
            train_model E (L (k + i)) sizes ((m # map model rs) ! i)
              (SGD (rates ! i)) (StepLR 7 (1 / 10)) n = Inr (rs ! i))"
  using assms
proof (induction rates arbitrary: k m rs)
  case Nil
  then show ?case by simp
next
  case (Cons rate rates)
  from Cons.prems obtain r rs' where
    r: "train_model E (L k) sizes m (SGD rate) (StepLR 7 (1 / 10)) n = Inr r"
    and rest: "sweep E L sizes n (Suc k) (model r) rates = Inr (rs', m')"
    and rs: "rs = r # rs'"
    by (auto simp: Let_def split: sum.splits prod.splits)
  note ih = Cons.IH[OF rest]
  have "train_model E (L (k + i)) sizes ((m # map model rs) ! i)
              (SGD ((rate # rates) ! i)) (StepLR 7 (1 / 10)) n = Inr (rs ! i)"
    if "i < length (rate # rates)" for i
  proof (cases i)
    case 0
    with r rs show ?thesis by simp
  next
    case (Suc j)
    with that have "j < length rates" by simp
    with ih have "train_model E (L (Suc k + j)) sizes ((model r # map model rs') ! j)
              (SGD (rates ! j)) (StepLR 7 (1 / 10)) n = Inr (rs' ! j)"
      by blast
    with Suc rs show ?thesis by simp
  qed
  moreover have "length rs = length (rate # rates)" using ih rs by simp
  moreover have "m' = last (m # map model rs)" using ih rs by simp
  ultimately show ?case by blast
qed

text \<open>
  C8. The sweep calls \<^verbatim>\<open>train_model\<close> once for each rate, in the order of the list. The
  call for rate \<open>i\<close> gets a new optimizer at that rate and a new \<^verbatim>\<open>StepLR\<close> scheduler
  with step size 7 and factor one tenth, and starts from the model the call before it
  returned (the first from the given model), whose parameters are those of that call's
  best checkpoint. In a run that starts with such an optimizer and scheduler the rate
  after \<open>e\<close> epochs is the initial rate times one tenth to the power \<open>e div 7\<close>. An
  optimizer step leaves the backbone as it is: the optimizer holds the parameters of
  \<open>fc\<close> only.
\<close>

theorem sweep_shares_model:
  "(sweep E L sizes n k m rates = Inr (rs, m') \<longrightarrow>
      length rs = length rates \<and> m' = last (m # map model rs) \<and>
      (\<forall>i<length rates.
         train_model E (L (k + i)) sizes ((m # map model rs) ! i)
           (SGD (rates ! i)) (StepLR 7 (1 / 10)) n = Inr (rs ! i) \<and>
         state_dict (model (rs ! i)) = best_model_params (rs ! i))) \<and>
   (run_epochs E L' sizes (initial_run m0 (SGD rate) (StepLR 7 (1 / 10))) [0..<e] = Inr s \<longrightarrow>
      lr (optimizer s) = rate * (1 / 10) ^ (e div 7) \<and> last_epoch (sched s) = e) \<and>
   backbone (model (backward_and_step E m1 inputs labels st)) = backbone (model st)"
proof (intro conjI impI)
  assume sw: "sweep E L sizes n k m rates = Inr (rs, m')"
  note runs = sweep_runs[OF sw]
  show "length rs = length rates" using runs by blast
  show "m' = last (m # map model rs)" using runs by blast
  show "\<forall>i<length rates.
         train_model E (L (k + i)) sizes ((m # map model rs) ! i)
           (SGD (rates ! i)) (StepLR 7 (1 / 10)) n = Inr (rs ! i) \<and>
         state_dict (model (rs ! i)) = best_model_params (rs ! i)"
  proof (intro allI impI)
    fix i assume "i < length rates"
    with runs have t: "train_model E (L (k + i)) sizes ((m # map model rs) ! i)
           (SGD (rates ! i)) (StepLR 7 (1 / 10)) n = Inr (rs ! i)"
      by blast
    then obtain s where "rs ! i = restore s" by (rule train_model_Inr)
    then have "state_dict (model (rs ! i)) = best_model_params (rs ! i)"
      by (simp add: restore_fields)
    with t show "train_model E (L (k + i)) sizes ((m # map model rs) ! i)
           (SGD (rates ! i)) (StepLR 7 (1 / 10)) n = Inr (rs ! i) \<and>
         state_dict (model (rs ! i)) = best_model_params (rs ! i)"
      by simp
  qed
next
  assume r: "run_epochs E L' sizes (initial_run m0 (SGD rate) (StepLR 7 (1 / 10))) [0..<e] = Inr s"
  show "lr (optimizer s) = rate * (1 / 10) ^ (e div 7)" by (rule fresh_run_schedule(1)[OF r])
  show "last_epoch (sched s) = e" by (rule fresh_run_schedule(2)[OF r])
next
  show "backbone (model (backward_and_step E m1 inputs labels st)) = backbone (model st)"
    by (simp add: backward_and_step_def Let_def emit_def)
qed

theorem sweep_shares_model_witness:
  "(\<exists>rs m'. sweep toy (\<lambda>k. toy_loaders) toy_sizes 8 0 toy_model [1 / 2, 2] = Inr (rs, m') \<and>
      length rs = 2 \<and> m' = model (rs ! 1) \<and>
      train_model toy toy_loaders toy_sizes toy_model (SGD (1 / 2)) (StepLR 7 (1 / 10)) 8
        = Inr (rs ! 0) \<and>
      train_model toy toy_loaders toy_sizes (model (rs ! 0)) (SGD 2) (StepLR 7 (1 / 10)) 8
        = Inr (rs ! 1) \<and>
      state_dict (model (rs ! 0)) = best_model_params (rs ! 0) \<and>
      map (\<lambda>r. state_dict (model r)) rs = [(4, 1), (6, 5)]) \<and>
   (\<exists>s. run_epochs toy toy_loaders toy_sizes
          (initial_run toy_model (SGD (1 / 2)) (StepLR 7 (1 / 10))) [0..<8] = Inr s \<and>
        lr (optimizer s) = 1 / 20 \<and> last_epoch (sched s) = 8)"
proof -
  let ?X = "sweep toy (\<lambda>k. toy_loaders) toy_sizes 8 0 toy_model [1 / 2, 2]"
  let ?Y = "run_epochs toy toy_loaders toy_sizes
          (initial_run toy_model (SGD (1 / 2)) (StepLR 7 (1 / 10))) [0..<8]"
  have "case ?X of Inl err \<Rightarrow> False
        | Inr res \<Rightarrow> map (\<lambda>r. state_dict (model r)) (fst res) = [(4, 1), (6, 5)]"
    by code_simp
  then obtain rs m' where X: "?X = Inr (rs, m')"
    and sd: "map (\<lambda>r. state_dict (model r)) rs = [(4, 1), (6, 5)]"
    by (cases ?X) auto
  have "case ?Y of Inl err \<Rightarrow> False | Inr s \<Rightarrow> True"
    by code_simp
  then obtain s where Y: "?Y = Inr s" by (cases ?Y) auto
  note inst = sweep_shares_model[of toy "\<lambda>k. toy_loaders" toy_sizes 8 0 toy_model "[1 / 2, 2]" rs m'
      toy_loaders toy_model "1 / 2" 8 s]
  from inst X have len: "length rs = 2" and m': "m' = last (toy_model # map model rs)"
    and each: "\<forall>i<2. train_model toy toy_loaders toy_sizes ((toy_model # map model rs) ! i)
           (SGD ([1 / 2, 2] ! i)) (StepLR 7 (1 / 10)) 8 = Inr (rs ! i) \<and>
         state_dict (model (rs ! i)) = best_model_params (rs ! i)"
    by simp_all
  from each[rule_format, of 0] have r0: "train_model toy toy_loaders toy_sizes toy_model (SGD (1 / 2))
        (StepLR 7 (1 / 10)) 8 = Inr (rs ! 0)"
    and b0: "state_dict (model (rs ! 0)) = best_model_params (rs ! 0)"
    by simp_all
  from each[rule_format, of 1] len
  have r1: "train_model toy toy_loaders toy_sizes (model (rs ! 0)) (SGD 2)
        (StepLR 7 (1 / 10)) 8 = Inr (rs ! 1)"
    by simp
  from len m' have m1: "m' = model (rs ! 1)"
    by (cases rs rule: rev_cases) (auto simp: nth_append)
  from inst Y have "lr (optimizer s) = 1 / 2 * (1 / 10) ^ (8 div 7) \<and> last_epoch (sched s) = 8"
    by blast
  then have sch: "lr (optimizer s) = 1 / 20" "last_epoch (sched s) = 8" by simp_all
  have first: "\<exists>rs m'. sweep toy (\<lambda>k. toy_loaders) toy_sizes 8 0 toy_model [1 / 2, 2] = Inr (rs, m') \<and>
      length rs = 2 \<and> m' = model (rs ! 1) \<and>
      train_model toy toy_loaders toy_sizes toy_model (SGD (1 / 2)) (StepLR 7 (1 / 10)) 8
        = Inr (rs ! 0) \<and>
      train_model toy toy_loaders toy_sizes (model (rs ! 0)) (SGD 2) (StepLR 7 (1 / 10)) 8
        = Inr (rs ! 1) \<and>
      state_dict (model (rs ! 0)) = best_model_params (rs ! 0) \<and>
      map (\<lambda>r. state_dict (model r)) rs = [(4, 1), (6, 5)]"
    apply (rule exI[of _ rs])
    apply (rule exI[of _ m'])
    apply (intro conjI)
    apply (rule X)
    apply (rule len)
    apply (rule m1)
    apply (rule r0)
    apply (rule r1)
    apply (rule b0)
    apply (rule sd)
    done
  have second: "\<exists>s. run_epochs toy toy_loaders toy_sizes
          (initial_run toy_model (SGD (1 / 2)) (StepLR 7 (1 / 10))) [0..<8] = Inr s \<and>
        lr (optimizer s) = 1 / 20 \<and> last_epoch (sched s) = 8"
    apply (rule exI[of _ s])
    apply (intro conjI)
    apply (rule Y)
    apply (rule sch(1))
    apply (rule sch(2))
    done
  from first second show ?thesis by (rule conjI)
qed

end
